theory Spec2Isabelle
  imports Main
begin

section \<open>Python strings\<close>

text \<open>
  A Python \<open>str\<close> is a sequence of Unicode code points. A code point is a natural number
  and a string is a list of them; Thai text is written by its code points (the Thai block
  is U+0E00 to U+0E7F), ASCII text through \<open>ascii\<close>.
\<close>

type_synonym uchar = nat
type_synonym ustring = "uchar list"

definition ascii :: "string \<Rightarrow> ustring" where
  "ascii s = map of_char s"

subsection \<open>The character tables\<close>

text \<open>
  \<open>str.isspace\<close>, which is also the class \<open>\s\<close> of \<open>re\<close> and what \<open>str.strip()\<close> removes:
  the complete table.
\<close>

definition isspace :: "uchar \<Rightarrow> bool" where
  "isspace c \<longleftrightarrow>
     (0x09 \<le> c \<and> c \<le> 0x0D) \<or> (0x1C \<le> c \<and> c \<le> 0x20) \<or> c = 0x85 \<or> c = 0xA0 \<or>
     c = 0x1680 \<or> (0x2000 \<le> c \<and> c \<le> 0x200A) \<or> c = 0x2028 \<or> c = 0x2029 \<or>
     c = 0x202F \<or> c = 0x205F \<or> c = 0x3000"

text \<open>
  The other tables of the Unicode database (letters, decimal digits, case mappings) are
  written out for Basic Latin, Latin-1 and the Thai block, the code points of the program's
  own patterns and keywords. For every other code point they are a parameter \<open>U\<close> of the
  model: a theorem stated for every \<open>U\<close> holds whatever the database says there.
\<close>

record ucd =
  rest_isalpha :: "uchar \<Rightarrow> bool"
  rest_isdecimal :: "uchar \<Rightarrow> bool"
  rest_decimal :: "uchar \<Rightarrow> nat"
  rest_isnumeric :: "uchar \<Rightarrow> bool"
  rest_tolower :: "uchar \<Rightarrow> uchar"
  rest_toupper :: "uchar \<Rightarrow> uchar"
  rest_upper :: "uchar \<Rightarrow> ustring"
  rest_lower :: "uchar \<Rightarrow> ustring"

definition known :: "uchar \<Rightarrow> bool" where
  "known c \<longleftrightarrow> c < 0x100 \<or> (0x0E00 \<le> c \<and> c \<le> 0x0E7F)"

definition in_range :: "uchar \<Rightarrow> uchar \<Rightarrow> uchar \<Rightarrow> bool" where
  "in_range lo hi c \<longleftrightarrow> lo \<le> c \<and> c \<le> hi"

definition isdecimal :: "ucd \<Rightarrow> uchar \<Rightarrow> bool" where
  "isdecimal U c =
     (if known c then in_range 0x30 0x39 c \<or> in_range 0x0E50 0x0E59 c else rest_isdecimal U c)"

text \<open>The value of a decimal digit, as \<open>int()\<close> reads it.\<close>

definition decimal :: "ucd \<Rightarrow> uchar \<Rightarrow> nat" where
  "decimal U c =
     (if known c then (if c < 0x100 then c - 0x30 else c - 0x0E50) else rest_decimal U c)"

definition isalpha :: "ucd \<Rightarrow> uchar \<Rightarrow> bool" where
  "isalpha U c =
     (if known c then
        in_range 0x41 0x5A c \<or> in_range 0x61 0x7A c \<or> c = 0xAA \<or> c = 0xB5 \<or> c = 0xBA \<or>
        in_range 0xC0 0xD6 c \<or> in_range 0xD8 0xF6 c \<or> in_range 0xF8 0xFF c \<or>
        in_range 0x0E01 0x0E30 c \<or> in_range 0x0E32 0x0E33 c \<or> in_range 0x0E40 0x0E46 c
      else rest_isalpha U c)"

definition isnumeric :: "ucd \<Rightarrow> uchar \<Rightarrow> bool" where
  "isnumeric U c =
     (if known c then
        in_range 0x30 0x39 c \<or> in_range 0x0E50 0x0E59 c \<or> c = 0xB2 \<or> c = 0xB3 \<or> c = 0xB9 \<or>
        in_range 0xBC 0xBE c
      else rest_isnumeric U c)"

text \<open>The class \<open>\w\<close> that decides \<open>\b\<close>: alphanumeric or the underscore.\<close>

definition isword :: "ucd \<Rightarrow> uchar \<Rightarrow> bool" where
  "isword U c \<longleftrightarrow> isalpha U c \<or> isdecimal U c \<or> isnumeric U c \<or> c = 0x5F"

text \<open>The simple case mappings, which \<open>re.IGNORECASE\<close> compares by.\<close>

definition tolower :: "ucd \<Rightarrow> uchar \<Rightarrow> uchar" where
  "tolower U c =
     (if known c then
        (if in_range 0x41 0x5A c \<or> (in_range 0xC0 0xDE c \<and> c \<noteq> 0xD7) then c + 32 else c)
      else rest_tolower U c)"

definition toupper :: "ucd \<Rightarrow> uchar \<Rightarrow> uchar" where
  "toupper U c =
     (if known c then
        (if in_range 0x61 0x7A c \<or> (in_range 0xE0 0xFE c \<and> c \<noteq> 0xF7) then c - 32
         else if c = 0xB5 then 0x039C
         else if c = 0xFF then 0x0178
         else c)
      else rest_toupper U c)"

text \<open>
  \<open>str.upper()\<close> and \<open>str.lower()\<close> map each character to a string: the sharp s (U+00DF)
  becomes \<open>SS\<close>, so the upper-case form of a text can be longer than the text.
\<close>

definition upper_char :: "ucd \<Rightarrow> uchar \<Rightarrow> ustring" where
  "upper_char U c =
     (if known c then (if c = 0xDF then [0x53, 0x53] else [toupper U c]) else rest_upper U c)"

definition lower_char :: "ucd \<Rightarrow> uchar \<Rightarrow> ustring" where
  "lower_char U c = (if known c then [tolower U c] else rest_lower U c)"

definition upper :: "ucd \<Rightarrow> ustring \<Rightarrow> ustring" where
  "upper U s = concat (map (upper_char U) s)"

definition lower :: "ucd \<Rightarrow> ustring \<Rightarrow> ustring" where
  "lower U s = concat (map (lower_char U) s)"

text \<open>A database that says nothing about the code points outside the tables above.\<close>

definition plain_ucd :: ucd where
  "plain_ucd = \<lparr> rest_isalpha = (\<lambda>c. False), rest_isdecimal = (\<lambda>c. False),
                 rest_decimal = (\<lambda>c. 0), rest_isnumeric = (\<lambda>c. False),
                 rest_tolower = (\<lambda>c. c), rest_toupper = (\<lambda>c. c),
                 rest_upper = (\<lambda>c. [c]), rest_lower = (\<lambda>c. [c]) \<rparr>"

subsection \<open>String methods\<close>

definition strip :: "ustring \<Rightarrow> ustring" where
  "strip s = rev (dropWhile isspace (rev (dropWhile isspace s)))"

text \<open>\<open>s.split(sep)\<close> for a separator of one character.\<close>

fun split :: "uchar \<Rightarrow> ustring \<Rightarrow> ustring list" where
  "split sep [] = [[]]"
| "split sep (c # cs) =
     (if c = sep then [] # split sep cs
      else (case split sep cs of [] \<Rightarrow> [[c]] | l # ls \<Rightarrow> (c # l) # ls))"

text \<open>\<open>s.replace(old, new)\<close> for a pattern \<open>old\<close> of one character.\<close>

definition replace :: "uchar \<Rightarrow> ustring \<Rightarrow> ustring \<Rightarrow> ustring" where
  "replace old new s = concat (map (\<lambda>c. if c = old then new else [c]) s)"

text \<open>\<open>a in b\<close> on strings: \<open>a\<close> occurs in \<open>b\<close> as a contiguous run.\<close>

fun starts_with :: "ustring \<Rightarrow> ustring \<Rightarrow> bool" where
  "starts_with [] s = True"
| "starts_with (a # as) [] = False"
| "starts_with (a # as) (c # cs) = (a = c \<and> starts_with as cs)"

fun contains :: "ustring \<Rightarrow> ustring \<Rightarrow> bool" where
  "contains a [] = (a = [])"
| "contains a (c # cs) = (starts_with a (c # cs) \<or> contains a cs)"

section \<open>Regular expressions\<close>

text \<open>
  The patterns of the program are written as syntax trees of the constructs they use.
  A quantifier (\<open>*\<close>, \<open>+\<close>, \<open>?\<close>, \<open>{m,n}\<close>, lazy with a further \<open>?\<close>) stands in the program
  on a single character or class only (\<open>Rep\<close>), except the optional non-capturing groups
  (\<open>Opt\<close>).
\<close>

datatype citem = CChar uchar | CRange uchar uchar | CDigit | CSpace | CDot

type_synonym cset = "citem list"

datatype regex =
    Eps
  | Lit ustring
  | Cls cset
  | Seq regex regex
  | Alt regex regex
  | Rep bool nat "nat option" cset
  | Opt regex
  | Grp nat regex
  | Look regex
  | Bol
  | Eol
  | WordB

fun seqs :: "regex list \<Rightarrow> regex" where
  "seqs [] = Eps"
| "seqs [r] = r"
| "seqs (r # rs) = Seq r (seqs rs)"

fun alts :: "regex list \<Rightarrow> regex" where
  "alts [] = Cls []"
| "alts [r] = r"
| "alts (r # rs) = Alt r (alts rs)"

text \<open>The number of capturing groups, the length of \<open>match.groups()\<close>.\<close>

fun ngroups :: "regex \<Rightarrow> nat" where
  "ngroups (Seq a b) = max (ngroups a) (ngroups b)"
| "ngroups (Alt a b) = max (ngroups a) (ngroups b)"
| "ngroups (Opt a) = ngroups a"
| "ngroups (Grp n a) = max n (ngroups a)"
| "ngroups (Look a) = ngroups a"
| "ngroups r = 0"

record reflags =
  ignorecase :: bool
  multiline :: bool

definition no_flags :: reflags where
  "no_flags = \<lparr> ignorecase = False, multiline = False \<rparr>"

definition flags_I :: reflags where
  "flags_I = \<lparr> ignorecase = True, multiline = False \<rparr>"

definition flags_IM :: reflags where
  "flags_IM = \<lparr> ignorecase = True, multiline = True \<rparr>"

subsection \<open>Characters\<close>

text \<open>
  Under \<open>re.IGNORECASE\<close> a text character is accepted for a pattern character when the two
  are equal, or equal in lower case, or equal when the lower case is put in upper case
  again; a range accepts a character by itself, by its lower case or by that upper case.
\<close>

definition ci_eq :: "ucd \<Rightarrow> uchar \<Rightarrow> uchar \<Rightarrow> bool" where
  "ci_eq U l c \<longleftrightarrow>
     c = l \<or> tolower U c = tolower U l \<or> toupper U (tolower U c) = toupper U (tolower U l)"

definition lit_eq :: "ucd \<Rightarrow> reflags \<Rightarrow> uchar \<Rightarrow> uchar \<Rightarrow> bool" where
  "lit_eq U F l c = (if ignorecase F then ci_eq U l c else c = l)"

fun citem_mem :: "ucd \<Rightarrow> reflags \<Rightarrow> citem \<Rightarrow> uchar \<Rightarrow> bool" where
  "citem_mem U F (CChar l) c = lit_eq U F l c"
| "citem_mem U F (CRange lo hi) c =
     (if ignorecase F
      then in_range lo hi c \<or> in_range lo hi (tolower U c) \<or>
           in_range lo hi (toupper U (tolower U c))
      else in_range lo hi c)"
| "citem_mem U F CDigit c = isdecimal U c"
| "citem_mem U F CSpace c = isspace c"
| "citem_mem U F CDot c = (c \<noteq> 0x0A)"

definition cset_mem :: "ucd \<Rightarrow> reflags \<Rightarrow> cset \<Rightarrow> uchar \<Rightarrow> bool" where
  "cset_mem U F cs c = list_ex (\<lambda>i. citem_mem U F i c) cs"

subsection \<open>The backtracking matcher\<close>

text \<open>
  A matcher state is the character before the position (none at the start of the string),
  the text from the position on, and the groups captured so far. \<open>rmatch\<close> lists the states
  in which a pattern can end from a state, in the order in which backtracking tries them:
  the match that \<open>re\<close> reports is the first. A lookahead is tried once: it keeps the
  position, and the groups of the first way in which its pattern matches.
\<close>

type_synonym captures = "nat \<Rightarrow> ustring option"
type_synonym mstate = "uchar option \<times> ustring \<times> captures"

fun lit_match :: "ucd \<Rightarrow> reflags \<Rightarrow> ustring \<Rightarrow> uchar option \<Rightarrow> ustring \<Rightarrow> (uchar option \<times> ustring) option" where
  "lit_match U F [] p r = Some (p, r)"
| "lit_match U F (l # ls) p [] = None"
| "lit_match U F (l # ls) p (x # xs) = (if lit_eq U F l x then lit_match U F ls (Some x) xs else None)"

text \<open>
  \<open>reps\<close>: between \<open>lo\<close> and \<open>hi\<close> characters of a class; greedy tries the longer runs first,
  lazy the shorter ones.
\<close>

fun reps :: "ucd \<Rightarrow> reflags \<Rightarrow> cset \<Rightarrow> bool \<Rightarrow> nat \<Rightarrow> nat option \<Rightarrow> uchar option \<Rightarrow> ustring \<Rightarrow> captures \<Rightarrow> mstate list" where
  "reps U F cs g lo hi p [] c = (if lo = 0 then [(p, [], c)] else [])"
| "reps U F cs g lo hi p (x # xs) c =
     (let here = (if lo = 0 then [(p, x # xs, c)] else []);
          more = (if hi \<noteq> Some 0 \<and> cset_mem U F cs x
                  then reps U F cs g (lo - 1) (map_option (\<lambda>h. h - 1) hi) (Some x) xs c
                  else [])
      in if g then more @ here else here @ more)"

definition at_bol :: "reflags \<Rightarrow> uchar option \<Rightarrow> bool" where
  "at_bol F p \<longleftrightarrow> p = None \<or> (multiline F \<and> p = Some 0x0A)"

definition at_eol :: "reflags \<Rightarrow> ustring \<Rightarrow> bool" where
  "at_eol F r \<longleftrightarrow> r = [] \<or> (if multiline F then hd r = 0x0A else r = [0x0A])"

definition at_wordb :: "ucd \<Rightarrow> uchar option \<Rightarrow> ustring \<Rightarrow> bool" where
  "at_wordb U p r \<longleftrightarrow>
     (case p of None \<Rightarrow> False | Some a \<Rightarrow> isword U a) \<noteq>
     (case r of [] \<Rightarrow> False | b # bs \<Rightarrow> isword U b)"

fun rmatch :: "ucd \<Rightarrow> reflags \<Rightarrow> regex \<Rightarrow> mstate \<Rightarrow> mstate list" where
  "rmatch U F Eps s = [s]"
| "rmatch U F (Lit l) (p, r, c) =
     (case lit_match U F l p r of None \<Rightarrow> [] | Some (p', r') \<Rightarrow> [(p', r', c)])"
| "rmatch U F (Cls cs) (p, r, c) =
     (case r of [] \<Rightarrow> [] | x # xs \<Rightarrow> if cset_mem U F cs x then [(Some x, xs, c)] else [])"
| "rmatch U F (Seq a b) s = concat (map (rmatch U F b) (rmatch U F a s))"
| "rmatch U F (Alt a b) s = rmatch U F a s @ rmatch U F b s"
| "rmatch U F (Rep g lo hi cs) (p, r, c) = reps U F cs g lo hi p r c"
| "rmatch U F (Opt a) s = rmatch U F a s @ [s]"
| "rmatch U F (Grp n a) (p, r, c) =
     map (\<lambda>(p', r', c'). (p', r', c'(n \<mapsto> take (length r - length r') r)))
         (rmatch U F a (p, r, c))"
| "rmatch U F (Look a) s =
     (case rmatch U F a s of [] \<Rightarrow> [] | t # ts \<Rightarrow> [(fst s, fst (snd s), snd (snd t))])"
| "rmatch U F Bol (p, r, c) = (if at_bol F p then [(p, r, c)] else [])"
| "rmatch U F Eol (p, r, c) = (if at_eol F r then [(p, r, c)] else [])"
| "rmatch U F WordB (p, r, c) = (if at_wordb U p r then [(p, r, c)] else [])"

subsection \<open>Match objects and the functions of the module\<close>

record rematch =
  m_start :: nat
  m_end :: nat
  m_caps :: captures

text \<open>The number of characters between a position and an end state of the matcher.\<close>

definition consumed :: "ustring \<Rightarrow> mstate \<Rightarrow> nat" where
  "consumed r s = length r - length (fst (snd s))"

definition mk_match :: "nat \<Rightarrow> ustring \<Rightarrow> mstate \<Rightarrow> rematch" where
  "mk_match i r s = \<lparr> m_start = i, m_end = i + consumed r s, m_caps = snd (snd s) \<rparr>"

text \<open>\<open>match.group(n)\<close> for \<open>n > 0\<close>, \<open>match.groups()\<close> and \<open>match.group(0)\<close>.\<close>

definition group :: "rematch \<Rightarrow> nat \<Rightarrow> ustring option" where
  "group m n = m_caps m n"

definition groups :: "regex \<Rightarrow> rematch \<Rightarrow> ustring option list" where
  "groups r m = map (m_caps m) [1..<Suc (ngroups r)]"

definition group0 :: "ustring \<Rightarrow> rematch \<Rightarrow> ustring" where
  "group0 text m = take (m_end m - m_start m) (drop (m_start m) text)"

text \<open>\<open>re.search\<close>: the first match at the leftmost position that has one.\<close>

fun search_from :: "ucd \<Rightarrow> reflags \<Rightarrow> regex \<Rightarrow> nat \<Rightarrow> uchar option \<Rightarrow> ustring \<Rightarrow> rematch option" where
  "search_from U F r i p [] =
     (case rmatch U F r (p, [], Map.empty) of [] \<Rightarrow> None | s # ss \<Rightarrow> Some (mk_match i [] s))"
| "search_from U F r i p (x # xs) =
     (case rmatch U F r (p, x # xs, Map.empty) of
        [] \<Rightarrow> search_from U F r (Suc i) (Some x) xs
      | s # ss \<Rightarrow> Some (mk_match i (x # xs) s))"

definition re_search :: "ucd \<Rightarrow> reflags \<Rightarrow> regex \<Rightarrow> ustring \<Rightarrow> rematch option" where
  "re_search U F r text = search_from U F r 0 None text"

text \<open>\<open>re.match\<close>: at the start of the string only; \<open>re.fullmatch\<close>: up to its end.\<close>

definition re_match :: "ucd \<Rightarrow> reflags \<Rightarrow> regex \<Rightarrow> ustring \<Rightarrow> rematch option" where
  "re_match U F r text =
     (case rmatch U F r (None, text, Map.empty) of [] \<Rightarrow> None | s # ss \<Rightarrow> Some (mk_match 0 text s))"

definition re_fullmatch :: "ucd \<Rightarrow> reflags \<Rightarrow> regex \<Rightarrow> ustring \<Rightarrow> rematch option" where
  "re_fullmatch U F r text =
     (case filter (\<lambda>s. fst (snd s) = []) (rmatch U F r (None, text, Map.empty)) of
        [] \<Rightarrow> None | s # ss \<Rightarrow> Some (mk_match 0 text s))"

text \<open>
  \<open>re.finditer\<close>: the matches from left to right, none overlapping. \<open>k\<close> counts the
  characters of the last match still to be passed over. After an empty match the next one
  at the same position has to be non-empty.
\<close>

fun finditer_from :: "ucd \<Rightarrow> reflags \<Rightarrow> regex \<Rightarrow> nat \<Rightarrow> nat \<Rightarrow> uchar option \<Rightarrow> ustring \<Rightarrow> rematch list" where
  "finditer_from U F r k i p [] =
     (if 0 < k then []
      else (case rmatch U F r (p, [], Map.empty) of [] \<Rightarrow> [] | s # ss \<Rightarrow> [mk_match i [] s]))"
| "finditer_from U F r k i p (x # xs) =
     (if 0 < k then finditer_from U F r (k - 1) (Suc i) (Some x) xs
      else (case rmatch U F r (p, x # xs, Map.empty) of
              [] \<Rightarrow> finditer_from U F r 0 (Suc i) (Some x) xs
            | s # ss \<Rightarrow>
                if 0 < consumed (x # xs) s
                then mk_match i (x # xs) s #
                     finditer_from U F r (consumed (x # xs) s - 1) (Suc i) (Some x) xs
                else (case find (\<lambda>t. 0 < consumed (x # xs) t) ss of
                        None \<Rightarrow> mk_match i (x # xs) s #
                                finditer_from U F r 0 (Suc i) (Some x) xs
                      | Some t \<Rightarrow> mk_match i (x # xs) s # mk_match i (x # xs) t #
                                finditer_from U F r (consumed (x # xs) t - 1) (Suc i) (Some x) xs)))"

definition re_finditer :: "ucd \<Rightarrow> reflags \<Rightarrow> regex \<Rightarrow> ustring \<Rightarrow> rematch list" where
  "re_finditer U F r text = finditer_from U F r 0 0 None text"

text \<open>\<open>re.findall\<close> for a pattern with one group: the group of every match.\<close>

definition re_findall :: "ucd \<Rightarrow> reflags \<Rightarrow> regex \<Rightarrow> ustring \<Rightarrow> ustring list" where
  "re_findall U F r text =
     map (\<lambda>m. case group m 1 of None \<Rightarrow> [] | Some g \<Rightarrow> g) (re_finditer U F r text)"

text \<open>
  \<open>re.sub(pattern, '', s)\<close>: the string without its matches. With the empty replacement
  an empty match changes nothing, so only the non-empty match at a position counts.
\<close>

fun sub_from :: "ucd \<Rightarrow> reflags \<Rightarrow> regex \<Rightarrow> nat \<Rightarrow> uchar option \<Rightarrow> ustring \<Rightarrow> ustring" where
  "sub_from U F r k p [] = []"
| "sub_from U F r k p (x # xs) =
     (if 0 < k then sub_from U F r (k - 1) (Some x) xs
      else (case find (\<lambda>t. 0 < consumed (x # xs) t) (rmatch U F r (p, x # xs, Map.empty)) of
              None \<Rightarrow> x # sub_from U F r 0 (Some x) xs
            | Some t \<Rightarrow> sub_from U F r (consumed (x # xs) t - 1) (Some x) xs))"

definition re_sub_empty :: "ucd \<Rightarrow> reflags \<Rightarrow> regex \<Rightarrow> ustring \<Rightarrow> ustring" where
  "re_sub_empty U F r s = sub_from U F r 0 None s"

section \<open>The pattern matcher\<close>

text \<open>
  \<open>find_first_match\<close> searches the text for each pattern in turn, with
  \<open>re.IGNORECASE | re.MULTILINE\<close>, and returns the first truthy group of the first match
  that has one, stripped. A match whose groups are all empty or unset does not end the
  loop over the patterns.
\<close>

fun first_truthy :: "ustring option list \<Rightarrow> ustring option" where
  "first_truthy [] = None"
| "first_truthy (None # gs) = first_truthy gs"
| "first_truthy (Some g # gs) = (if g \<noteq> [] then Some g else first_truthy gs)"

fun find_first_match :: "ucd \<Rightarrow> ustring \<Rightarrow> regex list \<Rightarrow> ustring option" where
  "find_first_match U text [] = None"
| "find_first_match U text (pattern # patterns) =
     (case re_search U flags_IM pattern text of
        None \<Rightarrow> find_first_match U text patterns
      | Some m \<Rightarrow>
          (case first_truthy (groups pattern m) of
             None \<Rightarrow> find_first_match U text patterns
           | Some g \<Rightarrow> Some (strip g)))"

text \<open>
  What one pattern contributes: the first truthy group of its leftmost match, if both exist.
\<close>

definition capture :: "ucd \<Rightarrow> ustring \<Rightarrow> regex \<Rightarrow> ustring option" where
  "capture U text pattern =
     (case re_search U flags_IM pattern text of
        None \<Rightarrow> None
      | Some m \<Rightarrow> first_truthy (groups pattern m))"

text \<open>
  The pattern matcher in the words of the specification: the first pattern that matches
  decides, also when none of its groups is truthy.
\<close>

fun first_match_decides :: "ucd \<Rightarrow> ustring \<Rightarrow> regex list \<Rightarrow> ustring option" where
  "first_match_decides U text [] = None"
| "first_match_decides U text (pattern # patterns) =
     (case re_search U flags_IM pattern text of
        None \<Rightarrow> first_match_decides U text patterns
      | Some m \<Rightarrow> map_option strip (first_truthy (groups pattern m)))"

section \<open>The tables and patterns of the program\<close>

text \<open>
  Each pattern is shown as the source writes it (Thai letters by their escapes) and then as
  its syntax tree. The patterns that the program builds from a keyword list take the list
  as an argument: the keywords are joined by \<^verbatim>\<open>|\<close> and none of them has a
  character that is special in a pattern.
\<close>

definition parse_thai_months :: "(ustring \<times> int) list" where
  "parse_thai_months =
     [([0x0E21, 0x0E01, 0x0E23, 0x0E32, 0x0E04, 0x0E21], 1), ([0x0E01, 0x0E38, 0x0E21, 0x0E20,
       0x0E32, 0x0E1E, 0x0E31, 0x0E19, 0x0E18, 0x0E4C], 2), ([0x0E21, 0x0E35, 0x0E19, 0x0E32,
       0x0E04, 0x0E21], 3), ([0x0E40, 0x0E21, 0x0E29, 0x0E32, 0x0E22, 0x0E19], 4), ([0x0E1E,
       0x0E24, 0x0E29, 0x0E20, 0x0E32, 0x0E04, 0x0E21], 5), ([0x0E21, 0x0E34, 0x0E16, 0x0E38,
       0x0E19, 0x0E32, 0x0E22, 0x0E19], 6), ([0x0E01, 0x0E23, 0x0E01, 0x0E0E, 0x0E32, 0x0E04,
       0x0E21], 7), ([0x0E2A, 0x0E34, 0x0E07, 0x0E2B, 0x0E32, 0x0E04, 0x0E21], 8), ([0x0E01,
       0x0E31, 0x0E19, 0x0E22, 0x0E32, 0x0E22, 0x0E19], 9), ([0x0E15, 0x0E38, 0x0E25, 0x0E32,
       0x0E04, 0x0E21], 10), ([0x0E1E, 0x0E24, 0x0E28, 0x0E08, 0x0E34, 0x0E01, 0x0E32, 0x0E22,
       0x0E19], 11), ([0x0E18, 0x0E31, 0x0E19, 0x0E27, 0x0E32, 0x0E04, 0x0E21], 12), ([0x0E21,
       0x2E, 0x0E04, 0x2E], 1), ([0x0E01, 0x2E, 0x0E1E, 0x2E], 2), ([0x0E21, 0x0E35, 0x2E,
       0x0E04, 0x2E], 3), ([0x0E40, 0x0E21, 0x2E, 0x0E22, 0x2E], 4), ([0x0E1E, 0x2E, 0x0E04,
       0x2E], 5), ([0x0E21, 0x0E34, 0x2E, 0x0E22, 0x2E], 6), ([0x0E01, 0x2E, 0x0E04, 0x2E], 7),
       ([0x0E2A, 0x2E, 0x0E04, 0x2E], 8), ([0x0E01, 0x2E, 0x0E22, 0x2E], 9), ([0x0E15, 0x2E,
       0x0E04, 0x2E], 10), ([0x0E1E, 0x2E, 0x0E22, 0x2E], 11), ([0x0E18, 0x2E, 0x0E04, 0x2E],
       12)]"

definition full_thai_months :: "ustring list" where
  "full_thai_months =
     [[0x0E21, 0x0E01, 0x0E23, 0x0E32, 0x0E04, 0x0E21], [0x0E01, 0x0E38, 0x0E21, 0x0E20,
       0x0E32, 0x0E1E, 0x0E31, 0x0E19, 0x0E18, 0x0E4C], [0x0E21, 0x0E35, 0x0E19, 0x0E32,
       0x0E04, 0x0E21], [0x0E40, 0x0E21, 0x0E29, 0x0E32, 0x0E22, 0x0E19], [0x0E1E, 0x0E24,
       0x0E29, 0x0E20, 0x0E32, 0x0E04, 0x0E21], [0x0E21, 0x0E34, 0x0E16, 0x0E38, 0x0E19,
       0x0E32, 0x0E22, 0x0E19], [0x0E01, 0x0E23, 0x0E01, 0x0E0E, 0x0E32, 0x0E04, 0x0E21],
       [0x0E2A, 0x0E34, 0x0E07, 0x0E2B, 0x0E32, 0x0E04, 0x0E21], [0x0E01, 0x0E31, 0x0E19,
       0x0E22, 0x0E32, 0x0E22, 0x0E19], [0x0E15, 0x0E38, 0x0E25, 0x0E32, 0x0E04, 0x0E21],
       [0x0E1E, 0x0E24, 0x0E28, 0x0E08, 0x0E34, 0x0E01, 0x0E32, 0x0E22, 0x0E19], [0x0E18,
       0x0E31, 0x0E19, 0x0E27, 0x0E32, 0x0E04, 0x0E21]]"

definition month_keys :: "ustring list" where
  "month_keys = map fst parse_thai_months"

text \<open>\<^verbatim>\<open>({months_pattern_str})[\s/.-]+(\d{2,4})\<close>, the keys joined by \<^verbatim>\<open>|\<close>\<close>

definition month_year_pattern :: "regex" where
  "month_year_pattern =
     seqs [Grp 1 (alts (map Lit month_keys)), Rep True 1 None [CSpace, CChar 0x2F, CChar 0x2E,
       CChar 0x2D], Grp 2 (Rep True 2 (Some 4) [CDigit])]"

text \<open>\<^verbatim>\<open>(\d{1,2})[/-](\d{1,2})[/-](\d{2,4})\<close>\<close>

definition numeric_date_pattern :: "regex" where
  "numeric_date_pattern =
     seqs [Grp 1 (Rep True 1 (Some 2) [CDigit]), Cls [CChar 0x2F, CChar 0x2D],
       Grp 2 (Rep True 1 (Some 2) [CDigit]), Cls [CChar 0x2F, CChar 0x2D],
       Grp 3 (Rep True 2 (Some 4) [CDigit])]"

text \<open>\<^verbatim>\<open>\b(\d{1,2})\b\<close>\<close>

definition day_pattern :: "regex" where
  "day_pattern =
     seqs [WordB, Grp 1 (Rep True 1 (Some 2) [CDigit]), WordB]"

text \<open>\<^verbatim>\<open>\d{1,2}\s+[\u0e01-\u0e2e\u0e40-\u0e4c.]+\s+\d{2,4}[,\s]+(\d{1,2}:\d{2}(?::\d{2})?)\<close>\<close>

definition time_on_date_line_pattern :: "regex" where
  "time_on_date_line_pattern =
     seqs [Rep True 1 (Some 2) [CDigit], Rep True 1 None [CSpace],
       Rep True 1 None [CRange 0x0E01 0x0E2E, CRange 0x0E40 0x0E4C, CChar 0x2E],
       Rep True 1 None [CSpace], Rep True 2 (Some 4) [CDigit], Rep True 1 None [CChar 0x2C,
       CSpace], Grp 1 (seqs [Rep True 1 (Some 2) [CDigit], Lit (ascii '':''),
       Rep True 2 (Some 2) [CDigit], Opt (seqs [Lit (ascii '':''),
       Rep True 2 (Some 2) [CDigit]])])]"

text \<open>\<^verbatim>\<open>(?:\u0e40\u0e27\u0e25\u0e32|Time)\s*[:\s]*(\d{2}:\d{2}(?::\d{2})?)\<close>\<close>

definition time_pattern_1 :: "regex" where
  "time_pattern_1 =
     seqs [alts [Lit [0x0E40, 0x0E27, 0x0E25, 0x0E32], Lit (ascii ''Time'')],
       Rep True 0 None [CSpace], Rep True 0 None [CChar 0x3A, CSpace],
       Grp 1 (seqs [Rep True 2 (Some 2) [CDigit], Lit (ascii '':''),
       Rep True 2 (Some 2) [CDigit], Opt (seqs [Lit (ascii '':''),
       Rep True 2 (Some 2) [CDigit]])])]"

text \<open>\<^verbatim>\<open>\b(\d{2}:\d{2}:\d{2})\b\<close>\<close>

definition time_pattern_2 :: "regex" where
  "time_pattern_2 =
     seqs [WordB, Grp 1 (seqs [Rep True 2 (Some 2) [CDigit], Lit (ascii '':''),
       Rep True 2 (Some 2) [CDigit], Lit (ascii '':''), Rep True 2 (Some 2) [CDigit]]), WordB]"

text \<open>\<^verbatim>\<open>\b(\d{1,2}:\d{2})\b\<close>\<close>

definition time_pattern_3 :: "regex" where
  "time_pattern_3 =
     seqs [WordB, Grp 1 (seqs [Rep True 1 (Some 2) [CDigit], Lit (ascii '':''),
       Rep True 2 (Some 2) [CDigit]]), WordB]"

text \<open>\<^verbatim>\<open>(?:\u0e08\u0e33\u0e19\u0e27\u0e19\u0e40\u0e07\u0e34\u0e19|Amount|\u0e42\u0e2d\u0e19\u0e40\u0e07\u0e34\u0e19\u0e2a\u0e33\u0e40\u0e23\u0e47\u0e08|\u0e22\u0e2d\u0e14\u0e40\u0e07\u0e34\u0e19|\u0e08\u0e33\u0e19\u0e27\u0e19\s?\u0e40\u0e07\u0e34\u0e19)\s*[:\s]*([\d,]+\.\d{2})\<close>\<close>

definition amount_pattern_1 :: "regex" where
  "amount_pattern_1 =
     seqs [alts [Lit [0x0E08, 0x0E33, 0x0E19, 0x0E27, 0x0E19, 0x0E40, 0x0E07, 0x0E34, 0x0E19],
       Lit (ascii ''Amount''), Lit [0x0E42, 0x0E2D, 0x0E19, 0x0E40, 0x0E07, 0x0E34, 0x0E19,
       0x0E2A, 0x0E33, 0x0E40, 0x0E23, 0x0E47, 0x0E08], Lit [0x0E22, 0x0E2D, 0x0E14, 0x0E40,
       0x0E07, 0x0E34, 0x0E19], seqs [Lit [0x0E08, 0x0E33, 0x0E19, 0x0E27, 0x0E19],
       Rep True 0 (Some 1) [CSpace], Lit [0x0E40, 0x0E07, 0x0E34, 0x0E19]]],
       Rep True 0 None [CSpace], Rep True 0 None [CChar 0x3A, CSpace],
       Grp 1 (seqs [Rep True 1 None [CDigit, CChar 0x2C], Lit (ascii ''.''),
       Rep True 2 (Some 2) [CDigit]])]"

text \<open>\<^verbatim>\<open>([\d,]+\.\d{2})\s*(?:\u0e1a\u0e32\u0e17|BAHT|thb)\<close>\<close>

definition amount_pattern_2 :: "regex" where
  "amount_pattern_2 =
     seqs [Grp 1 (seqs [Rep True 1 None [CDigit, CChar 0x2C], Lit (ascii ''.''),
       Rep True 2 (Some 2) [CDigit]]), Rep True 0 None [CSpace], alts [Lit [0x0E1A, 0x0E32,
       0x0E17], Lit (ascii ''BAHT''), Lit (ascii ''thb'')]]"

text \<open>\<^verbatim>\<open>\b([\d,]{1,10}\.\d{2})\b\<close>\<close>

definition amount_pattern_3 :: "regex" where
  "amount_pattern_3 =
     seqs [WordB, Grp 1 (seqs [Rep True 1 (Some 10) [CDigit, CChar 0x2C], Lit (ascii ''.''),
       Rep True 2 (Some 2) [CDigit]]), WordB]"

text \<open>\<^verbatim>\<open>^[.\s]+\<close>\<close>

definition leading_dots_pattern :: "regex" where
  "leading_dots_pattern =
     seqs [Bol, Rep True 1 None [CChar 0x2E, CSpace]]"

text \<open>\<^verbatim>\<open>^[.\s\u0e32\u0e2d]+\<close>\<close>

definition leading_noise_pattern :: "regex" where
  "leading_noise_pattern =
     seqs [Bol, Rep True 1 None [CChar 0x2E, CSpace, CChar 0x0E32, CChar 0x0E2D]]"

text \<open>\<^verbatim>\<open>^((?:\u0e19\u0e32\u0e22|\u0e19\u0e32\u0e07|\u0e19\u0e32\u0e07\u0e2a\u0e32\u0e27|\u0e19\.\u0e2a\.|\u0e04\u0e38\u0e13|\u0e1a\u0e08\u0e01\.|\u0e2b\u0e08\u0e01\.)?\s*[\u0e01-\u0e59A-Za-z\s.\'"]+)\<close>\<close>

definition standalone_name_pattern :: "regex" where
  "standalone_name_pattern =
     seqs [Bol, Grp 1 (seqs [Opt (alts [Lit [0x0E19, 0x0E32, 0x0E22], Lit [0x0E19, 0x0E32,
       0x0E07], Lit [0x0E19, 0x0E32, 0x0E07, 0x0E2A, 0x0E32, 0x0E27], Lit [0x0E19, 0x2E,
       0x0E2A, 0x2E], Lit [0x0E04, 0x0E38, 0x0E13], Lit [0x0E1A, 0x0E08, 0x0E01, 0x2E],
       Lit [0x0E2B, 0x0E08, 0x0E01, 0x2E]]), Rep True 0 None [CSpace],
       Rep True 1 None [CRange 0x0E01 0x0E59, CRange 0x41 0x5A, CRange 0x61 0x7A, CSpace,
       CChar 0x2E, CChar 0x27, CChar 0x22]])]"

text \<open>\<^verbatim>\<open>\s*x-?[\dx]+.*\<close>\<close>

definition masked_suffix_pattern :: "regex" where
  "masked_suffix_pattern =
     seqs [Rep True 0 None [CSpace], Lit (ascii ''x''), Rep True 0 (Some 1) [CChar 0x2D],
       Rep True 1 None [CDigit, CChar 0x78], Rep True 0 None [CDot]]"

text \<open>\<^verbatim>\<open>[\d\s-]+$\<close>\<close>

definition trailing_digits_pattern :: "regex" where
  "trailing_digits_pattern =
     seqs [Rep True 1 None [CDigit, CSpace, CChar 0x2D], Eol]"

text \<open>\<^verbatim>\<open>(\b\d{10}\b|x-?[\dx-]{5,})\<close>\<close>

definition account_pattern :: "regex" where
  "account_pattern =
     Grp 1 (alts [seqs [WordB, Rep True 10 (Some 10) [CDigit], WordB], seqs [Lit (ascii ''x''),
       Rep True 0 (Some 1) [CChar 0x2D], Rep True 5 None [CDigit, CChar 0x78, CChar 0x2D]]])"

text \<open>\<^verbatim>\<open>^((?:\u0e19\u0e32\u0e22|\u0e19\u0e32\u0e07|\u0e19\u0e32\u0e07\u0e2a\u0e32\u0e27|\u0e19\.\u0e2a\.|\u0e04\u0e38\u0e13|\u0e1a\u0e08\u0e01\.|\u0e2b\u0e08\u0e01\.)?\s*[\u0e01-\u0e59A-Za-z\s.\'"]+)\<close>\<close>

definition name_pattern :: "regex" where
  "name_pattern =
     seqs [Bol, Grp 1 (seqs [Opt (alts [Lit [0x0E19, 0x0E32, 0x0E22], Lit [0x0E19, 0x0E32,
       0x0E07], Lit [0x0E19, 0x0E32, 0x0E07, 0x0E2A, 0x0E32, 0x0E27], Lit [0x0E19, 0x2E,
       0x0E2A, 0x2E], Lit [0x0E04, 0x0E38, 0x0E13], Lit [0x0E1A, 0x0E08, 0x0E01, 0x2E],
       Lit [0x0E2B, 0x0E08, 0x0E01, 0x2E]]), Rep True 0 None [CSpace],
       Rep True 1 None [CRange 0x0E01 0x0E59, CRange 0x41 0x5A, CRange 0x61 0x7A, CSpace,
       CChar 0x2E, CChar 0x27, CChar 0x22]])]"

text \<open>\<^verbatim>\<open>(\u0e18\u0e19\u0e32\u0e04\u0e32\u0e23|bank|\b\u0e18\.|\b\u0e18\s|\u0e42\u0e2d\u0e19\u0e40\u0e07\u0e34\u0e19|\u0e08\u0e33\u0e19\u0e27\u0e19\u0e40\u0e07\u0e34\u0e19|\u0e27\u0e31\u0e19\u0e17\u0e35\u0e48|\u0e2a\u0e33\u0e40\u0e23\u0e47\u0e08|\u0e1a\u0e32\u0e17|baht|amount|transfer)\<close>\<close>

definition non_name_clues :: "regex" where
  "non_name_clues =
     Grp 1 (alts [Lit [0x0E18, 0x0E19, 0x0E32, 0x0E04, 0x0E32, 0x0E23], Lit (ascii ''bank''),
       seqs [WordB, Lit [0x0E18, 0x2E]], seqs [WordB, Lit [0x0E18], Cls [CSpace]], Lit [0x0E42,
       0x0E2D, 0x0E19, 0x0E40, 0x0E07, 0x0E34, 0x0E19], Lit [0x0E08, 0x0E33, 0x0E19, 0x0E27,
       0x0E19, 0x0E40, 0x0E07, 0x0E34, 0x0E19], Lit [0x0E27, 0x0E31, 0x0E19, 0x0E17, 0x0E35,
       0x0E48], Lit [0x0E2A, 0x0E33, 0x0E40, 0x0E23, 0x0E47, 0x0E08], Lit [0x0E1A, 0x0E32,
       0x0E17], Lit (ascii ''baht''), Lit (ascii ''amount''), Lit (ascii ''transfer'')])"

text \<open>\<^verbatim>\<open>[\sx-]+\<close>\<close>

definition only_mask_pattern :: "regex" where
  "only_mask_pattern =
     Rep True 1 None [CSpace, CChar 0x78, CChar 0x2D]"

text \<open>\<^verbatim>\<open>\s+x-?[\dx-]+.*\<close>\<close>

definition masked_tail_pattern :: "regex" where
  "masked_tail_pattern =
     seqs [Rep True 1 None [CSpace], Lit (ascii ''x''), Rep True 0 (Some 1) [CChar 0x2D],
       Rep True 1 None [CDigit, CChar 0x78, CChar 0x2D], Rep True 0 None [CDot]]"

text \<open>\<^verbatim>\<open>(?:\u0e23\u0e2b\u0e31\u0e2a\u0e2d\u0e49\u0e32\u0e07\u0e2d\u0e34\u0e07|\u0e2b\u0e21\u0e32\u0e22\u0e40\u0e25\u0e02\u0e2d\u0e49\u0e32\u0e07\u0e2d\u0e34\u0e07|\u0e40\u0e25\u0e02\u0e17\u0e35\u0e48\u0e2d\u0e49\u0e32\u0e07\u0e2d\u0e34\u0e07|\u0e40\u0e25\u0e02\u0e17\u0e35\u0e48\u0e23\u0e32\u0e22\u0e01\u0e32\u0e23|\u0e23\u0e2b\u0e31\u0e2a\u0e2d\u0e49\u0e32\u0e07\u0e2d\u0e34\u0e07|\u0e40\u0e25\u0e02\u0e2d\u0e49\u0e32\u0e07\u0e2d\u0e34\u0e07|\u0e2d\u0e49\u0e32\u0e07\u0e2d\u0e34\u0e07|Ref|Ref\.\s*No|No\.)[\s:.]*([a-zA-Z0-9\s-]+)\<close>\<close>

definition ref_pattern_1 :: "regex" where
  "ref_pattern_1 =
     seqs [alts [Lit [0x0E23, 0x0E2B, 0x0E31, 0x0E2A, 0x0E2D, 0x0E49, 0x0E32, 0x0E07, 0x0E2D,
       0x0E34, 0x0E07], Lit [0x0E2B, 0x0E21, 0x0E32, 0x0E22, 0x0E40, 0x0E25, 0x0E02, 0x0E2D,
       0x0E49, 0x0E32, 0x0E07, 0x0E2D, 0x0E34, 0x0E07], Lit [0x0E40, 0x0E25, 0x0E02, 0x0E17,
       0x0E35, 0x0E48, 0x0E2D, 0x0E49, 0x0E32, 0x0E07, 0x0E2D, 0x0E34, 0x0E07], Lit [0x0E40,
       0x0E25, 0x0E02, 0x0E17, 0x0E35, 0x0E48, 0x0E23, 0x0E32, 0x0E22, 0x0E01, 0x0E32, 0x0E23],
       Lit [0x0E23, 0x0E2B, 0x0E31, 0x0E2A, 0x0E2D, 0x0E49, 0x0E32, 0x0E07, 0x0E2D, 0x0E34,
       0x0E07], Lit [0x0E40, 0x0E25, 0x0E02, 0x0E2D, 0x0E49, 0x0E32, 0x0E07, 0x0E2D, 0x0E34,
       0x0E07], Lit [0x0E2D, 0x0E49, 0x0E32, 0x0E07, 0x0E2D, 0x0E34, 0x0E07],
       Lit (ascii ''Ref''), seqs [Lit (ascii ''Ref.''), Rep True 0 None [CSpace],
       Lit (ascii ''No'')], Lit (ascii ''No.'')], Rep True 0 None [CSpace, CChar 0x3A,
       CChar 0x2E], Grp 1 (Rep True 1 None [CRange 0x61 0x7A, CRange 0x41 0x5A,
       CRange 0x30 0x39, CSpace, CChar 0x2D])]"

text \<open>\<^verbatim>\<open>\b([a-zA-Z0-9]{15,})\b\<close>\<close>

definition ref_pattern_2 :: "regex" where
  "ref_pattern_2 =
     seqs [WordB, Grp 1 (Rep True 15 None [CRange 0x61 0x7A, CRange 0x41 0x5A,
       CRange 0x30 0x39]), WordB]"

text \<open>\<^verbatim>\<open>(?:{all_keywords})[\s:.-]*((?:\u0e19\u0e32\u0e22|\u0e19\u0e32\u0e07|\u0e19\u0e32\u0e07\u0e2a\u0e32\u0e27|\u0e19\.\u0e2a\.|\u0e04\u0e38\u0e13|\u0e1a\u0e08\u0e01\.|\u0e2b\u0e08\u0e01\.)?\s*[\u0e01-\u0e59A-Za-z\s.\'"]+?)(?=\s*x-?[\dx]+|\s*\u0e18\u0e19\u0e32\u0e04\u0e32\u0e23|$)\<close>\<close>

definition name_keyword_pattern_1 :: "ustring list \<Rightarrow> regex" where
  "name_keyword_pattern_1 keywords =
     seqs [alts (map Lit keywords), Rep True 0 None [CSpace, CChar 0x3A, CChar 0x2E,
       CChar 0x2D], Grp 1 (seqs [Opt (alts [Lit [0x0E19, 0x0E32, 0x0E22], Lit [0x0E19, 0x0E32,
       0x0E07], Lit [0x0E19, 0x0E32, 0x0E07, 0x0E2A, 0x0E32, 0x0E27], Lit [0x0E19, 0x2E,
       0x0E2A, 0x2E], Lit [0x0E04, 0x0E38, 0x0E13], Lit [0x0E1A, 0x0E08, 0x0E01, 0x2E],
       Lit [0x0E2B, 0x0E08, 0x0E01, 0x2E]]), Rep True 0 None [CSpace],
       Rep False 1 None [CRange 0x0E01 0x0E59, CRange 0x41 0x5A, CRange 0x61 0x7A, CSpace,
       CChar 0x2E, CChar 0x27, CChar 0x22]]), Look (alts [seqs [Rep True 0 None [CSpace],
       Lit (ascii ''x''), Rep True 0 (Some 1) [CChar 0x2D], Rep True 1 None [CDigit,
       CChar 0x78]], seqs [Rep True 0 None [CSpace], Lit [0x0E18, 0x0E19, 0x0E32, 0x0E04,
       0x0E32, 0x0E23]], Eol])]"

text \<open>\<^verbatim>\<open>(?:{all_keywords})\s+((?:\u0e19\u0e32\u0e22|\u0e19\u0e32\u0e07|\u0e19\u0e32\u0e07\u0e2a\u0e32\u0e27|\u0e19\.\u0e2a\.|\u0e04\u0e38\u0e13|\u0e1a\u0e08\u0e01\.|\u0e2b\u0e08\u0e01\.)?\s*[\u0e01-\u0e59A-Za-z\s.\'"]+)\<close>\<close>

definition name_keyword_pattern_2 :: "ustring list \<Rightarrow> regex" where
  "name_keyword_pattern_2 keywords =
     seqs [alts (map Lit keywords), Rep True 1 None [CSpace],
       Grp 1 (seqs [Opt (alts [Lit [0x0E19, 0x0E32, 0x0E22], Lit [0x0E19, 0x0E32, 0x0E07],
       Lit [0x0E19, 0x0E32, 0x0E07, 0x0E2A, 0x0E32, 0x0E27], Lit [0x0E19, 0x2E, 0x0E2A, 0x2E],
       Lit [0x0E04, 0x0E38, 0x0E13], Lit [0x0E1A, 0x0E08, 0x0E01, 0x2E], Lit [0x0E2B, 0x0E08,
       0x0E01, 0x2E]]), Rep True 0 None [CSpace], Rep True 1 None [CRange 0x0E01 0x0E59,
       CRange 0x41 0x5A, CRange 0x61 0x7A, CSpace, CChar 0x2E, CChar 0x27, CChar 0x22]])]"

text \<open>\<^verbatim>\<open>({all_keywords})\<close>\<close>

definition keyword_pattern :: "ustring list \<Rightarrow> regex" where
  "keyword_pattern keywords =
     Grp 1 (alts (map Lit keywords))"

definition bank_keywords :: "(ustring \<times> ustring list) list" where
  "bank_keywords =
     [([0x0E01, 0x0E23, 0x0E38, 0x0E07, 0x0E40, 0x0E17, 0x0E1E], [ascii ''BBL'',
       ascii ''BBLA'', ascii ''BANGKOK BANK'', [0x0E18, 0x0E19, 0x0E32, 0x0E04, 0x0E32, 0x0E23,
       0x0E01, 0x0E23, 0x0E38, 0x0E07, 0x0E40, 0x0E17, 0x0E1E], [0x0E01, 0x0E23, 0x0E38,
       0x0E07, 0x0E40, 0x0E17, 0x0E1E]]), ([0x0E01, 0x0E2A, 0x0E34, 0x0E01, 0x0E23, 0x0E44,
       0x0E17, 0x0E22], [ascii ''KBANK'', ascii ''KASIKORNBANK'', ascii ''KASI'',
       ascii ''KPLUS'', ascii ''K+'', ascii ''+'', ascii ''MAKE'', ascii ''MAKE by KBank'',
       [0x0E18, 0x0E19, 0x0E32, 0x0E04, 0x0E32, 0x0E23, 0x0E01, 0x0E2A, 0x0E34, 0x0E01, 0x0E23,
       0x0E44, 0x0E17, 0x0E22], [0x0E01, 0x0E2A, 0x0E34, 0x0E01, 0x0E23, 0x0E44, 0x0E17,
       0x0E22], [0x0E01, 0x0E2A, 0x0E34, 0x0E01, 0x0E23], [0x0E23, 0x2E, 0x0E01, 0x0E2A,
       0x0E34, 0x0E01, 0x0E23, 0x0E44, 0x0E17, 0x0E22], [0x0E20, 0x20, 0x0E2A, 0x20, 0x0E01,
       0x20, 0x0E23, 0x20, 0x0E44, 0x0E17, 0x20, 0x0E22]]), ([0x0E44, 0x0E17, 0x0E22, 0x0E1E,
       0x0E32, 0x0E13, 0x0E34, 0x0E0A, 0x0E22, 0x0E4C], [ascii ''SCB'',
       ascii ''SIAM COMMERCIAL BANK'', [0x0E18, 0x0E19, 0x0E32, 0x0E04, 0x0E32, 0x0E23, 0x0E44,
       0x0E17, 0x0E22, 0x0E1E, 0x0E32, 0x0E13, 0x0E34, 0x0E0A, 0x0E22, 0x0E4C], [0x0E44,
       0x0E17, 0x0E22, 0x0E1E, 0x0E32, 0x0E13, 0x0E34, 0x0E0A, 0x0E22, 0x0E4C]]), ([0x0E01,
       0x0E23, 0x0E38, 0x0E07, 0x0E44, 0x0E17, 0x0E22], [ascii ''KTB'', ascii ''KRUNGTHAI'',
       ascii ''krungthai'', [0x0E18, 0x0E19, 0x0E32, 0x0E04, 0x0E32, 0x0E23, 0x0E01, 0x0E23,
       0x0E38, 0x0E07, 0x0E44, 0x0E17, 0x0E22], [0x0E01, 0x0E23, 0x0E38, 0x0E07, 0x0E44,
       0x0E17, 0x0E22], [0x0E01, 0x20, 0x0E23, 0x20, 0x0E07, 0x20, 0x0E44, 0x0E17, 0x20,
       0x0E22]]), ([0x0E17, 0x0E2B, 0x0E32, 0x0E23, 0x0E44, 0x0E17, 0x0E22, 0x0E18, 0x0E19,
       0x0E0A, 0x0E32, 0x0E15], [ascii ''TTB'', ascii ''ttb'', ascii ''TMBTHANACHART BANK'',
       [0x0E18, 0x0E19, 0x0E32, 0x0E04, 0x0E32, 0x0E23, 0x0E17, 0x0E2B, 0x0E32, 0x0E23, 0x0E44,
       0x0E17, 0x0E22, 0x0E18, 0x0E19, 0x0E0A, 0x0E32, 0x0E15], [0x0E17, 0x0E35, 0x0E40,
       0x0E2D, 0x0E47, 0x0E21, 0x0E1A, 0x0E35, 0x0E18, 0x0E19, 0x0E0A, 0x0E32, 0x0E15],
       [0x0E17, 0x0E2B, 0x0E32, 0x0E23, 0x0E44, 0x0E17, 0x0E22], [0x0E18, 0x0E19, 0x0E0A,
       0x0E32, 0x0E15], ascii ''TTMB'']), ([0x0E2D, 0x0E2D, 0x0E21, 0x0E2A, 0x0E34, 0x0E19],
       [ascii ''GSB'', ascii ''GOVERNMENT SAVINGS BANK'', ascii ''MYMO'', [0x0E18, 0x0E19,
       0x0E32, 0x0E04, 0x0E32, 0x0E23, 0x0E2D, 0x0E2D, 0x0E21, 0x0E2A, 0x0E34, 0x0E19],
       [0x0E2D, 0x0E2D, 0x0E21, 0x0E2A, 0x0E34, 0x0E19], [0x0E2D, 0x20, 0x0E2D, 0x20, 0x0E21,
       0x20, 0x0E2A, 0x20, 0x0E19]]), ([0x0E01, 0x0E23, 0x0E38, 0x0E07, 0x0E28, 0x0E23, 0x0E35,
       0x0E2D, 0x0E22, 0x0E38, 0x0E18, 0x0E22, 0x0E32], [ascii ''BAY'', ascii ''KRUNGSRI'',
       ascii ''BANK OF AYUDHYA'', [0x0E18, 0x0E19, 0x0E32, 0x0E04, 0x0E32, 0x0E23, 0x0E01,
       0x0E23, 0x0E38, 0x0E07, 0x0E28, 0x0E23, 0x0E35, 0x0E2D, 0x0E22, 0x0E38, 0x0E18, 0x0E22,
       0x0E32], [0x0E01, 0x0E23, 0x0E38, 0x0E07, 0x0E28, 0x0E23, 0x0E35]]), ([0x0E18, 0x2E,
       0x0E01, 0x2E, 0x0E2A, 0x2E], [ascii ''BAAC'', [0x0E18, 0x0E01, 0x0E2A], [0x0E18, 0x2E,
       0x0E01, 0x2E, 0x0E2A, 0x2E]])]"

definition recipient_markers :: "ustring list" where
  "recipient_markers =
     [[0x0E44, 0x0E1B, 0x0E22, 0x0E31, 0x0E07], [0x0E44, 0x0E1B, 0x0E17, 0x0E35, 0x0E48],
       ascii ''TO'', [0x0E1C, 0x0E39, 0x0E49, 0x0E23, 0x0E31, 0x0E1A, 0x0E40, 0x0E07, 0x0E34,
       0x0E19], [0x0E1C, 0x0E39, 0x0E49, 0x0E23, 0x0E31, 0x0E1A], ascii ''RECIPIENT'', [0x0E16,
       0x0E36, 0x0E07]]"

definition sender_keywords :: "ustring list" where
  "sender_keywords =
     [[0x0E08, 0x0E32, 0x0E01], ascii ''From'', [0x0E1C, 0x0E39, 0x0E49, 0x0E42, 0x0E2D,
       0x0E19]]"

definition recipient_keywords :: "ustring list" where
  "recipient_keywords =
     [[0x0E44, 0x0E1B, 0x0E22, 0x0E31, 0x0E07], [0x0E44, 0x0E1B, 0x0E17, 0x0E35, 0x0E48],
       ascii ''To'', [0x0E1C, 0x0E39, 0x0E49, 0x0E23, 0x0E31, 0x0E1A, 0x0E40, 0x0E07, 0x0E34,
       0x0E19], [0x0E1C, 0x0E39, 0x0E49, 0x0E23, 0x0E31, 0x0E1A], ascii ''Recipient'', [0x0E16,
       0x0E36, 0x0E07]]"

definition bare_honorifics :: "ustring list" where
  "bare_honorifics =
     [[0x0E19, 0x0E32, 0x0E22], [0x0E19, 0x0E32, 0x0E07], [0x0E19, 0x0E32, 0x0E07, 0x0E2A,
       0x0E32, 0x0E27], [0x0E19, 0x2E, 0x0E2A, 0x2E], [0x0E04, 0x0E38, 0x0E13]]"

definition no_text_message :: "ustring" where
  "no_text_message =
     [0x0E44, 0x0E21, 0x0E48, 0x0E21, 0x0E35, 0x0E02, 0x0E49, 0x0E2D, 0x0E04, 0x0E27, 0x0E32,
       0x0E21, 0x0E43, 0x0E2B, 0x0E49]"

section \<open>Exceptions and the built-in functions that raise them\<close>

datatype exn = ValueError | TypeError | IndexError | AttributeError

definition and_then :: "exn + 'a \<Rightarrow> ('a \<Rightarrow> exn + 'b) \<Rightarrow> exn + 'b" where
  "and_then m f = (case m of Inl e \<Rightarrow> Inl e | Inr x \<Rightarrow> f x)"

text \<open>
  A value is truthy (\<open>if v\<close>, \<open>not v\<close>, \<open>all([...])\<close>, \<open>a or b\<close>) when it is a non-empty string;
  \<open>None\<close> and the empty string are falsy.
\<close>

fun truthy :: "ustring option \<Rightarrow> bool" where
  "truthy None = False"
| "truthy (Some s) = (s \<noteq> [])"

definition py_or :: "ustring option \<Rightarrow> ustring option \<Rightarrow> ustring option" where
  "py_or a b = (if truthy a then a else b)"

text \<open>
  \<open>int(s)\<close> on a string: blanks around, a sign, then decimal digits of any script, between
  two of which a single underscore may stand; anything else raises \<open>ValueError\<close>. The blanks
  are the white space without the four separators U+001C to U+001F.
\<close>

fun int_digits :: "ucd \<Rightarrow> bool \<Rightarrow> nat \<Rightarrow> ustring \<Rightarrow> nat option" where
  "int_digits U d acc [] = (if d then Some acc else None)"
| "int_digits U d acc (c # cs) =
     (if isdecimal U c then int_digits U True (10 * acc + decimal U c) cs
      else if c = 0x5F \<and> d \<and> (case cs of [] \<Rightarrow> False | n # ns \<Rightarrow> isdecimal U n)
      then int_digits U False acc cs
      else None)"

definition int_blank :: "uchar \<Rightarrow> bool" where
  "int_blank c \<longleftrightarrow> isspace c \<and> \<not> in_range 0x1C 0x1F c"

definition int_of_str :: "ucd \<Rightarrow> ustring \<Rightarrow> exn + int" where
  "int_of_str U s =
     (let t = rev (dropWhile int_blank (rev (dropWhile int_blank s)));
          neg = (case t of [] \<Rightarrow> False | c # cs \<Rightarrow> c = 0x2D);
          ds = (case t of [] \<Rightarrow> [] | c # cs \<Rightarrow> if c = 0x2D \<or> c = 0x2B then cs else t)
      in case int_digits U False 0 ds of
           None \<Rightarrow> Inl ValueError
         | Some n \<Rightarrow> Inr (if neg then - int n else int n))"

text \<open>\<open>int(v)\<close> where \<open>v\<close> may be \<open>None\<close>, which raises \<open>TypeError\<close>.\<close>

fun py_int :: "ucd \<Rightarrow> ustring option \<Rightarrow> exn + int" where
  "py_int U None = Inl TypeError"
| "py_int U (Some s) = int_of_str U s"

text \<open>\<open>str(n)\<close> of an integer, as an f-string prints it.\<close>

fun str_nat :: "nat \<Rightarrow> ustring" where
  "str_nat n = (if n < 10 then [0x30 + n] else str_nat (n div 10) @ [0x30 + n mod 10])"

declare str_nat.simps [simp del]

definition str_int :: "int \<Rightarrow> ustring" where
  "str_int i = (if i < 0 then 0x2D # str_nat (nat (- i)) else str_nat (nat i))"

text \<open>An optional string in an f-string: \<open>None\<close> prints as the word.\<close>

fun str_opt :: "ustring option \<Rightarrow> ustring" where
  "str_opt None = ascii ''None''"
| "str_opt (Some s) = s"

text \<open>
  \<open>datetime(year, month, day)\<close> raises \<open>ValueError\<close> unless the year is from 1 to 9999 and
  the day exists in the month.
\<close>

definition is_leap :: "int \<Rightarrow> bool" where
  "is_leap y \<longleftrightarrow> y mod 4 = 0 \<and> (y mod 100 \<noteq> 0 \<or> y mod 400 = 0)"

definition days_in_month :: "int \<Rightarrow> int \<Rightarrow> int" where
  "days_in_month y m =
     (if m = 2 then (if is_leap y then 29 else 28)
      else if m = 4 \<or> m = 6 \<or> m = 9 \<or> m = 11 then 30 else 31)"

record date =
  d_year :: int
  d_month :: int
  d_day :: int

definition datetime :: "int \<Rightarrow> int \<Rightarrow> int \<Rightarrow> exn + date" where
  "datetime y m d =
     (if 1 \<le> y \<and> y \<le> 9999 \<and> 1 \<le> m \<and> m \<le> 12 \<and> 1 \<le> d \<and> d \<le> days_in_month y m
      then Inr \<lparr> d_year = y, d_month = m, d_day = d \<rparr>
      else Inl ValueError)"

text \<open>\<open>xs[i]\<close> on a list: a negative index counts from the end, an index out of range raises.\<close>

definition py_index :: "'a list \<Rightarrow> int \<Rightarrow> exn + 'a" where
  "py_index xs i =
     (if 0 \<le> i \<and> i < int (length xs) then Inr (xs ! nat i)
      else if i < 0 \<and> - int (length xs) \<le> i then Inr (xs ! nat (int (length xs) + i))
      else Inl IndexError)"

text \<open>\<open>v.strip()\<close> where \<open>v\<close> may be \<open>None\<close>, which raises \<open>AttributeError\<close>.\<close>

fun strip_opt :: "ustring option \<Rightarrow> exn + ustring" where
  "strip_opt None = Inl AttributeError"
| "strip_opt (Some s) = Inr (strip s)"

section \<open>The date resolver\<close>

text \<open>
  The first part of \<open>_find_date\<close>, up to the \<open>try\<close>: the day, month and year strings, or the
  early \<open>return None\<close> when the text has neither a month and year nor a numeric date, or has
  a month and year with no number of one or two digits before it.
\<close>

definition date_components :: "ucd \<Rightarrow> ustring \<Rightarrow> (ustring option \<times> ustring option \<times> ustring option) option" where
  "date_components U text =
     (case re_search U flags_I month_year_pattern text of
        None \<Rightarrow>
          (case re_search U no_flags numeric_date_pattern text of
             None \<Rightarrow> None
           | Some numeric_match \<Rightarrow>
               Some (group numeric_match 1, group numeric_match 2, group numeric_match 3))
      | Some month_year_match \<Rightarrow>
          (let text_before_month = take (m_start month_year_match) text;
               possible_days = re_findall U no_flags day_pattern text_before_month
           in if possible_days = [] then None
              else Some (Some (last possible_days),
                         group month_year_match 1, group month_year_match 2)))"

text \<open>
  The inner \<open>try\<close>: the month as a number, or else the number of the first key of the month
  table, in the order of the table, whose lower case occurs in the lower case of the month
  string; \<open>None\<close> if there is no such key.
\<close>

fun month_number :: "ucd \<Rightarrow> ustring option \<Rightarrow> exn + int option" where
  "month_number U None = Inl TypeError"
| "month_number U (Some month_str) =
     (case int_of_str U month_str of
        Inr n \<Rightarrow> Inr (Some n)
      | Inl e \<Rightarrow>
          if e = ValueError
          then Inr (map_option snd
                 (find (\<lambda>(th_month_key, num). contains (lower U th_month_key) (lower U month_str))
                       parse_thai_months))
          else Inl e)"

text \<open>
  The body of the outer \<open>try\<close>. \<open>now_year\<close> is \<open>datetime.now().year\<close>. The result carries the
  date object beside the formatted string.
\<close>

definition convert_date :: "ucd \<Rightarrow> int \<Rightarrow> ustring option \<Rightarrow> ustring option \<Rightarrow> ustring option \<Rightarrow> exn + (date \<times> ustring)" where
  "convert_date U now_year day_str month_str year_str =
     and_then (py_int U day_str) (\<lambda>day.
     and_then (py_int U year_str) (\<lambda>year0.
     and_then (case year_str of None \<Rightarrow> Inl TypeError | Some ys \<Rightarrow> Inr (length ys)) (\<lambda>year_len.
     let year_be = (if year_len \<le> 2 then year0 + ((now_year + 543) div 100) * 100 else year0);
         year_ad = (if year_be > 2500 then year_be - 543 else year_be)
     in
     and_then (month_number U month_str) (\<lambda>month_num_opt.
     case month_num_opt of
       None \<Rightarrow> Inl ValueError
     | Some month_num \<Rightarrow>
         if \<not> (1 \<le> day \<and> day \<le> 31 \<and> 1 \<le> month_num \<and> month_num \<le> 12) then Inl ValueError
         else
           and_then (datetime year_ad month_num day) (\<lambda>date_obj.
           and_then (py_index full_thai_months (d_month date_obj - 1)) (\<lambda>month_name_full.
           Inr (date_obj,
                str_int day @ [0x20] @ month_name_full @ [0x20] @ str_int year_be)))))))"

text \<open>\<open>_find_date\<close>: any exception of the \<open>try\<close> gives the three strings as they were found.\<close>

definition find_date :: "ucd \<Rightarrow> int \<Rightarrow> ustring \<Rightarrow> ustring option" where
  "find_date U now_year text =
     (case date_components U text of
        None \<Rightarrow> None
      | Some (day_str, month_str, year_str) \<Rightarrow>
          (case convert_date U now_year day_str month_str year_str of
             Inr (date_obj, formatted_date) \<Rightarrow> Some formatted_date
           | Inl e \<Rightarrow>
               if truthy day_str \<and> truthy month_str \<and> truthy year_str
               then Some (str_opt day_str @ [0x20] @ str_opt month_str @ [0x20] @ str_opt year_str)
               else None))"

section \<open>The time, amount and name extractors\<close>

definition time_patterns :: "regex list" where
  "time_patterns = [time_pattern_1, time_pattern_2, time_pattern_3]"

definition find_time :: "ucd \<Rightarrow> ustring \<Rightarrow> ustring option" where
  "find_time U text =
     (case re_search U flags_I time_on_date_line_pattern text of
        Some time_on_date_line \<Rightarrow> group time_on_date_line 1
      | None \<Rightarrow> find_first_match U text time_patterns)"

definition amount_patterns :: "regex list" where
  "amount_patterns = [amount_pattern_1, amount_pattern_2, amount_pattern_3]"

definition parse_amount :: "ucd \<Rightarrow> ustring \<Rightarrow> ustring option" where
  "parse_amount U text =
     (let amount = find_first_match U text amount_patterns
      in if truthy amount then map_option (replace 0x2C []) amount else None)"

definition clean_ocr_name :: "ucd \<Rightarrow> ustring option \<Rightarrow> ustring option" where
  "clean_ocr_name U name =
     (case name of
        None \<Rightarrow> None
      | Some n \<Rightarrow>
          if n = [] then None
          else
            (let cleaned = re_sub_empty U no_flags leading_dots_pattern n;
                 cleaned = replace 0x0E3A [] cleaned;
                 cleaned = strip (re_sub_empty U no_flags leading_noise_pattern cleaned)
             in Some (strip cleaned)))"

text \<open>\<open>[line.strip() for line in text.split('\n') if line.strip()]\<close>\<close>

definition stripped_lines :: "ustring \<Rightarrow> ustring list" where
  "stripped_lines text = map strip (filter (\<lambda>line. strip line \<noteq> []) (split 0x0A text))"

text \<open>
  The loop of \<open>_find_standalone_name\<close> from the second line on (the first line has no line
  before it); \<open>previous\<close> is the line before the head of the list.
\<close>

fun standalone_loop :: "ucd \<Rightarrow> ustring list \<Rightarrow> ustring \<Rightarrow> ustring list \<Rightarrow> exn + ustring option" where
  "standalone_loop U context_keywords previous [] = Inr None"
| "standalone_loop U context_keywords previous (line # lines) =
     (case re_match U flags_I standalone_name_pattern line of
        None \<Rightarrow> standalone_loop U context_keywords line lines
      | Some name_match \<Rightarrow>
          if list_ex (\<lambda>kw. contains (upper U kw) (upper U previous)) context_keywords
          then and_then (strip_opt (group name_match 1)) (\<lambda>name.
                 Inr (Some (strip (re_sub_empty U no_flags masked_suffix_pattern name))))
          else standalone_loop U context_keywords line lines)"

definition find_standalone_name :: "ucd \<Rightarrow> ustring \<Rightarrow> ustring list \<Rightarrow> exn + ustring option" where
  "find_standalone_name U text context_keywords =
     (case stripped_lines text of
        [] \<Rightarrow> Inr None
      | line # lines \<Rightarrow> standalone_loop U context_keywords line lines)"

definition parse_name :: "ucd \<Rightarrow> ustring \<Rightarrow> ustring list \<Rightarrow> ustring option" where
  "parse_name U text keywords =
     (let name = find_first_match U text
                   [name_keyword_pattern_1 keywords, name_keyword_pattern_2 keywords]
      in case name of
           None \<Rightarrow> None
         | Some n \<Rightarrow>
             if n = [] then None
             else
               (let cleaned_name = strip (re_sub_empty U no_flags trailing_digits_pattern n);
                    cleaned_name = strip (re_sub_empty U flags_I (keyword_pattern keywords) cleaned_name)
                in if cleaned_name \<noteq> [] \<and> lower U cleaned_name \<notin> set bare_honorifics
                   then Some cleaned_name else None))"

text \<open>
  The loop of \<open>_find_names_by_account_number\<close> over the lines from the current one on, with
  the names found so far.
\<close>

definition hits :: "ucd \<Rightarrow> regex \<Rightarrow> ustring \<Rightarrow> bool" where
  "hits U pattern line \<longleftrightarrow> re_search U flags_I pattern line \<noteq> None"

definition name_confirmed :: "ucd \<Rightarrow> ustring \<Rightarrow> ustring list \<Rightarrow> bool" where
  "name_confirmed U line following =
     (hits U account_pattern line
      \<or> (case following of [] \<Rightarrow> False | l1 # ls \<Rightarrow> hits U account_pattern l1)
      \<or> (case following of
            l1 # l2 # ls \<Rightarrow> hits U non_name_clues l1 \<and> hits U account_pattern l2
          | _ \<Rightarrow> False))"

fun names_loop :: "ucd \<Rightarrow> ustring list \<Rightarrow> ustring list \<Rightarrow> exn + ustring list" where
  "names_loop U found_names [] = Inr found_names"
| "names_loop U found_names (line # lines) =
     (case re_match U flags_I name_pattern line of
        None \<Rightarrow> names_loop U found_names lines
      | Some name_match \<Rightarrow>
          if \<not> hits U non_name_clues line \<and> name_confirmed U line lines
          then and_then (strip_opt (group name_match 1)) (\<lambda>name.
                 if re_fullmatch U flags_I only_mask_pattern name \<noteq> None
                 then names_loop U found_names lines
                 else
                   (let name = strip (re_sub_empty U flags_I masked_tail_pattern name)
                    in if 2 < length name \<and> name \<notin> set found_names
                       then names_loop U (found_names @ [name]) lines
                       else names_loop U found_names lines))
          else names_loop U found_names lines)"

definition find_names_by_account_number :: "ucd \<Rightarrow> ustring \<Rightarrow> exn + ustring list" where
  "find_names_by_account_number U text = names_loop U [] (stripped_lines text)"

section \<open>The orchestrator\<close>

text \<open>
  The first bank of the table, in the order of its declaration, one of whose keywords
  occurs in a text; the search is case-sensitive.
\<close>

definition first_bank :: "ucd \<Rightarrow> ustring \<Rightarrow> ustring option" where
  "first_bank U section_text =
     map_option fst
       (find (\<lambda>(name, kw_list). re_search U no_flags (alts (map Lit kw_list)) section_text \<noteq> None)
             bank_keywords)"

text \<open>
  The bank: the position of the first recipient marker is found in the text, and the
  prefix of that length is cut from the upper-case text.
\<close>

definition find_bank :: "ucd \<Rightarrow> ustring \<Rightarrow> ustring option" where
  "find_bank U text =
     (let text_upper = upper U text;
          sender_section_text =
            (case re_search U flags_I (alts (map Lit recipient_markers)) text of
               Some m \<Rightarrow> take (m_start m) text_upper
             | None \<Rightarrow> text_upper);
          sender_bank = first_bank U sender_section_text
      in if truthy sender_bank then sender_bank else first_bank U text_upper)"

text \<open>
  The sender and the recipient: by keyword, else by a line of their own; then, if one of
  the two is still missing, by the position of the account numbers.
\<close>

definition find_names :: "ucd \<Rightarrow> ustring \<Rightarrow> exn + (ustring option \<times> ustring option)" where
  "find_names U text =
     and_then (let a = parse_name U text sender_keywords
               in if truthy a then Inr a else find_standalone_name U text sender_keywords)
       (\<lambda>sender.
     and_then (let a = parse_name U text recipient_keywords
               in if truthy a then Inr a else find_standalone_name U text recipient_keywords)
       (\<lambda>recipient.
     if \<not> truthy sender \<or> \<not> truthy recipient
     then and_then (find_names_by_account_number U text) (\<lambda>names_from_position.
            and_then (if \<not> truthy sender \<and> 1 \<le> length names_from_position
                      then map_sum id Some (py_index names_from_position 0)
                      else Inr sender) (\<lambda>sender.
            and_then (if \<not> truthy recipient \<and> 2 \<le> length names_from_position
                      then map_sum id Some (py_index names_from_position 1)
                      else Inr recipient) (\<lambda>recipient.
            Inr (sender, recipient))))
     else Inr (sender, recipient)))"

definition ref_patterns :: "regex list" where
  "ref_patterns = [ref_pattern_1, ref_pattern_2]"

definition find_reference :: "ucd \<Rightarrow> ustring \<Rightarrow> ustring option" where
  "find_reference U text =
     (let reference = find_first_match U text ref_patterns
      in if truthy reference then map_option (replace 0x20 []) reference else None)"

text \<open>
  The record is a dictionary from keys to optional strings: a key can be absent, or
  present with the value \<open>None\<close>.
\<close>

type_synonym pydict = "string \<Rightarrow> ustring option option"

definition parse_payment_slip :: "ucd \<Rightarrow> int \<Rightarrow> ustring option \<Rightarrow> exn + pydict" where
  "parse_payment_slip U now_year text_opt =
     (case text_opt of
        None \<Rightarrow> Inr [''error'' \<mapsto> Some no_text_message]
      | Some text \<Rightarrow>
          if text = [] then Inr [''error'' \<mapsto> Some no_text_message]
          else
            (let parsed_data = [''raw_text'' \<mapsto> Some text];
                 parsed_data = parsed_data(''bank'' \<mapsto> find_bank U text);
                 parsed_data = parsed_data(''amount'' \<mapsto> parse_amount U text);
                 parsed_data = parsed_data(''date'' \<mapsto> find_date U now_year text);
                 parsed_data = parsed_data(''time'' \<mapsto> find_time U text)
             in and_then (find_names U text) (\<lambda>(sender, recipient).
                  let parsed_data = parsed_data(''sender'' \<mapsto> clean_ocr_name U sender);
                      parsed_data = parsed_data(''recipient'' \<mapsto> clean_ocr_name U recipient);
                      parsed_data = parsed_data(''reference'' \<mapsto> find_reference U text)
                  in Inr parsed_data)))"

section \<open>Notions used to state the properties\<close>

text \<open>The character before position \<open>k\<close> of a text whose first character follows \<open>p\<close>.\<close>

definition prev_at :: "uchar option \<Rightarrow> ustring \<Rightarrow> nat \<Rightarrow> uchar option" where
  "prev_at p rest k = (if k = 0 then p else Some (rest ! (k - 1)))"






text \<open>
  The name that one line contributes to the positional strategy, given the lines after it:
  the body of the loop of \<open>_find_names_by_account_number\<close> without its test for names
  already found.
\<close>

definition line_name :: "ucd \<Rightarrow> ustring \<Rightarrow> ustring list \<Rightarrow> ustring option" where
  "line_name U line following =
     (case re_match U flags_I name_pattern line of
        None \<Rightarrow> None
      | Some name_match \<Rightarrow>
          if \<not> hits U non_name_clues line \<and> name_confirmed U line following
          then (case group name_match 1 of
                  None \<Rightarrow> None
                | Some g \<Rightarrow>
                    if re_fullmatch U flags_I only_mask_pattern (strip g) \<noteq> None then None
                    else
                      (let name = strip (re_sub_empty U flags_I masked_tail_pattern (strip g))
                       in if 2 < length name then Some name else None))
          else None)"

text \<open>The names of all lines in document order, and a list without its later duplicates.\<close>

fun candidates :: "ucd \<Rightarrow> ustring list \<Rightarrow> ustring list" where
  "candidates U [] = []"
| "candidates U (line # lines) =
     (case line_name U line lines of
        None \<Rightarrow> candidates U lines
      | Some name \<Rightarrow> name # candidates U lines)"

fun keep_first :: "'a list \<Rightarrow> 'a list \<Rightarrow> 'a list" where
  "keep_first seen [] = []"
| "keep_first seen (x # xs) =
     (if x \<in> set seen then keep_first seen xs else x # keep_first (seen @ [x]) xs)"

text \<open>
  What the keyword strategy and, after it, the line strategy give for a role:
  \<open>_parse_name(...) or _find_standalone_name(...)\<close>.
\<close>

definition resolve_role :: "ucd \<Rightarrow> ustring \<Rightarrow> ustring list \<Rightarrow> ustring option" where
  "resolve_role U text keywords =
     (let a = parse_name U text keywords
      in if truthy a then a
         else (case find_standalone_name U text keywords of Inl e \<Rightarrow> None | Inr b \<Rightarrow> b))"

section \<open>Evaluation\<close>

text \<open>The definitions that the simplifier unfolds to run the model on a concrete text.\<close>

lemmas ev =
  ascii_def flags_IM_def flags_I_def no_flags_def cset_mem_def lit_eq_def ci_eq_def
  tolower_def toupper_def known_def in_range_def isspace_def isdecimal_def isalpha_def
  isnumeric_def isword_def at_bol_def at_eol_def at_wordb_def consumed_def mk_match_def
  groups_def group_def group0_def strip_def replace_def upper_def lower_def upper_char_def
  lower_char_def decimal_def re_search_def re_match_def re_fullmatch_def re_finditer_def
  re_findall_def re_sub_empty_def

lemmas ev_date = month_year_pattern_def month_keys_def parse_thai_months_def numeric_date_pattern_def
  day_pattern_def date_components_def find_date_def convert_date_def and_then_def int_of_str_def
  int_blank_def str_int_def str_nat.simps datetime_def days_in_month_def is_leap_def py_index_def
  full_thai_months_def Let_def

lemmas ev_fields = amount_patterns_def amount_pattern_1_def amount_pattern_2_def amount_pattern_3_def
  parse_amount_def ref_patterns_def ref_pattern_1_def ref_pattern_2_def find_reference_def Let_def

lemmas ev_bank = find_bank_def first_bank_def bank_keywords_def recipient_markers_def Let_def

lemmas ev_names = parse_name_def name_keyword_pattern_1_def name_keyword_pattern_2_def
  keyword_pattern_def trailing_digits_pattern_def bare_honorifics_def sender_keywords_def
  recipient_keywords_def find_standalone_name_def stripped_lines_def standalone_name_pattern_def
  masked_suffix_pattern_def find_names_by_account_number_def name_pattern_def non_name_clues_def
  account_pattern_def only_mask_pattern_def masked_tail_pattern_def hits_def name_confirmed_def
  clean_ocr_name_def leading_dots_pattern_def leading_noise_pattern_def and_then_def py_index_def
  Let_def

section \<open>Properties of the matcher\<close>

lemma reps_result:
  "(p', r', c') \<in> set (reps U F cs g lo hi p r c) \<Longrightarrow>
     c' = c \<and> (\<exists>k. lo \<le> k \<and> k \<le> length r \<and> r' = drop k r \<and> (\<forall>h. hi = Some h \<longrightarrow> k \<le> h))"
proof (induction r arbitrary: lo hi p)
  case Nil
  then show ?case by (auto split: if_splits)
next
  case (Cons x xs)
  from Cons.prems have
    "(lo = 0 \<and> (p', r', c') = (p, x # xs, c)) \<or>
     (hi \<noteq> Some 0 \<and> cset_mem U F cs x \<and>
      (p', r', c') \<in> set (reps U F cs g (lo - 1) (map_option (\<lambda>h. h - 1) hi) (Some x) xs c))"
    by (auto simp: Let_def split: if_splits)
  then show ?case
  proof
    assume "lo = 0 \<and> (p', r', c') = (p, x # xs, c)"
    then show ?thesis by (intro conjI exI[of _ 0]) auto
  next
    assume a: "hi \<noteq> Some 0 \<and> cset_mem U F cs x \<and>
      (p', r', c') \<in> set (reps U F cs g (lo - 1) (map_option (\<lambda>h. h - 1) hi) (Some x) xs c)"
    from Cons.IH[of "lo - 1" "map_option (\<lambda>h. h - 1) hi" "Some x"] a
    obtain k where k: "c' = c" "lo - 1 \<le> k" "k \<le> length xs" "r' = drop k xs"
       "\<forall>h. map_option (\<lambda>h. h - 1) hi = Some h \<longrightarrow> k \<le> h" by blast
    show ?thesis
    proof (intro conjI exI[of _ "Suc k"])
      show "c' = c" by fact
      show "lo \<le> Suc k" using k by simp
      show "Suc k \<le> length (x # xs)" using k by simp
      show "r' = drop (Suc k) (x # xs)" using k by simp
      show "\<forall>h. hi = Some h \<longrightarrow> Suc k \<le> h" using k a by (cases hi) auto
    qed
  qed
qed

lemma reps_hi0 [simp]: "reps U F cs g 0 (Some 0) p r c = [(p, r, c)]"
  by (cases r) (simp_all add: Let_def)

lemma lit_match_result:
  "lit_match U F l p r = Some (p', r') \<Longrightarrow> length l \<le> length r \<and> r' = drop (length l) r"
  by (induction U F l p r rule: lit_match.induct) (auto split: if_splits)

lemma rmatch_Lit_result:
  assumes "(p', r', c') \<in> set (rmatch U F (Lit k) (p, r, c))"
  shows "c' = c \<and> length k \<le> length r \<and> r' = drop (length k) r"
proof (cases "lit_match U F k p r")
  case None
  with assms show ?thesis by simp
next
  case (Some a)
  obtain ap ar where e: "a = (ap, ar)" by (cases a)
  with Some assms have "p' = ap" "r' = ar" "c' = c" by simp_all
  with Some e lit_match_result[of U F k p r ap ar] show ?thesis by simp
qed

lemma rmatch_Grp_elim:
  assumes "(p', r', c') \<in> set (rmatch U F (Grp n a) (p, r, c))"
  obtains c'' where "(p', r', c'') \<in> set (rmatch U F a (p, r, c))"
    "c' = c''(n \<mapsto> take (length r - length r') r)"
proof -
  from assms have "(p', r', c') \<in> (\<lambda>(p', r', c'). (p', r', c'(n \<mapsto> take (length r - length r') r))) `
      set (rmatch U F a (p, r, c))"
    by simp
  then obtain t where t: "t \<in> set (rmatch U F a (p, r, c))"
    "(p', r', c') = (\<lambda>(p', r', c'). (p', r', c'(n \<mapsto> take (length r - length r') r))) t"
    by (rule imageE)
  obtain tp tr tc where e: "t = (tp, tr, tc)" by (cases t)
  from t e have "tp = p'" "tr = r'" "c' = tc(n \<mapsto> take (length r - length r') r)" by simp_all
  with t e that show ?thesis by simp
qed

lemma rmatch_Seq_elim:
  assumes "s'' \<in> set (rmatch U F (Seq a b) s)"
  obtains s' where "s' \<in> set (rmatch U F a s)" "s'' \<in> set (rmatch U F b s')"
proof -
  from assms have "s'' \<in> (\<Union>x \<in> set (rmatch U F a s). set (rmatch U F b x))" by simp
  then show ?thesis using that by blast
qed

lemma grp_rep_capture:
  assumes "(p', r', c') \<in> set (rmatch U F (Grp n (Rep g lo hi cs)) (p, r, c))"
  shows "\<exists>gs. c' = c(n \<mapsto> gs) \<and> lo \<le> length gs"
proof -
  from assms obtain c'' where
    a: "(p', r', c'') \<in> set (rmatch U F (Rep g lo hi cs) (p, r, c))" and
    b: "c' = c''(n \<mapsto> take (length r - length r') r)"
    by (rule rmatch_Grp_elim)
  from a have a': "(p', r', c'') \<in> set (reps U F cs g lo hi p r c)" by simp
  from reps_result[OF a'] obtain k where k: "c'' = c" "lo \<le> k" "k \<le> length r" "r' = drop k r"
    by blast
  then have "length (take (length r - length r') r) = k" by simp
  with b k(1,2) show ?thesis by (intro exI[of _ "take (length r - length r') r"]) simp
qed

lemma alts_lits_result:
  "(p', r', c') \<in> set (rmatch U F (alts (map Lit ks)) (p, r, c)) \<Longrightarrow>
     c' = c \<and> (\<exists>k \<in> set ks. length k \<le> length r \<and> r' = drop (length k) r)"
proof (induction ks)
  case Nil
  then show ?case by (cases r) (simp_all add: cset_mem_def)
next
  case (Cons k ks)
  show ?case
  proof (cases ks)
    case Nil
    with Cons.prems have "(p', r', c') \<in> set (rmatch U F (Lit k) (p, r, c))" by simp
    from rmatch_Lit_result[OF this] show ?thesis by simp
  next
    case (Cons k' ks')
    with Cons.prems have
      "(p', r', c') \<in> set (rmatch U F (Lit k) (p, r, c)) \<or>
       (p', r', c') \<in> set (rmatch U F (alts (map Lit ks)) (p, r, c))"
      by simp
    then show ?thesis
    proof
      assume "(p', r', c') \<in> set (rmatch U F (Lit k) (p, r, c))"
      from rmatch_Lit_result[OF this] show ?thesis by simp
    next
      assume "(p', r', c') \<in> set (rmatch U F (alts (map Lit ks)) (p, r, c))"
      from Cons.IH[OF this] show ?thesis by auto
    qed
  qed
qed

lemma grp_alts_lits_capture:
  assumes "(p', r', c') \<in> set (rmatch U F (Grp n (alts (map Lit ks))) (p, r, c))"
  shows "\<exists>k \<in> set ks. c' = c(n \<mapsto> take (length k) r) \<and> length k \<le> length r"
proof -
  from assms obtain c'' where
    a: "(p', r', c'') \<in> set (rmatch U F (alts (map Lit ks)) (p, r, c))" and
    b: "c' = c''(n \<mapsto> take (length r - length r') r)"
    by (rule rmatch_Grp_elim)
  from alts_lits_result[OF a] obtain k where
    k: "c'' = c" "k \<in> set ks" "length k \<le> length r" "r' = drop (length k) r"
    by blast
  then have "length r - length r' = length k" by simp
  with b k(1,2,3) show ?thesis by (intro bexI[of _ k]) simp_all
qed

lemma cls_result:
  "(p', r', c') \<in> set (rmatch U F (Cls cs) (p, r, c)) \<Longrightarrow> c' = c"
  by (cases r) (simp_all split: if_splits)

lemma rep_result_caps:
  "(p', r', c') \<in> set (rmatch U F (Rep g lo hi cs) (p, r, c)) \<Longrightarrow> c' = c"
  using reps_result[of p' r' c' U F cs g lo hi p r c] by simp

lemma wordb_result:
  "s' \<in> set (rmatch U F WordB s) \<Longrightarrow> s' = s"
  by (cases s) (simp split: if_splits)

lemma prev_at_Cons: "prev_at p (x # xs) (Suc k) = prev_at (Some x) xs k"
  by (cases k) (simp_all add: prev_at_def)

lemma m_start_mk_match [simp]: "m_start (mk_match i r s) = i"
  by (simp add: mk_match_def)

lemma search_from_result:
  "search_from U F r i p rest = Some m \<Longrightarrow>
     i \<le> m_start m \<and> m_start m - i \<le> length rest \<and>
     (\<exists>s ss. rmatch U F r (prev_at p rest (m_start m - i), drop (m_start m - i) rest, Map.empty) = s # ss
        \<and> m = mk_match (m_start m) (drop (m_start m - i) rest) s) \<and>
     (\<forall>j < m_start m - i. rmatch U F r (prev_at p rest j, drop j rest, Map.empty) = [])"
proof (induction rest arbitrary: i p)
  case Nil
  then obtain s ss where "rmatch U F r (p, [], Map.empty) = s # ss" "m = mk_match i [] s"
    by (auto split: list.splits)
  then show ?case by (simp add: prev_at_def)
next
  case (Cons x xs)
  show ?case
  proof (cases "rmatch U F r (p, x # xs, Map.empty)")
    case Nil
    with Cons.prems have sf: "search_from U F r (Suc i) (Some x) xs = Some m" by simp
    note ih = Cons.IH[OF sf]
    define k where "k = m_start m - Suc i"
    have si: "Suc i \<le> m_start m" using ih by blast
    have kl: "k \<le> length xs" using ih unfolding k_def by blast
    have ki: "m_start m - i = Suc k" using si k_def by arith
    from ih obtain s ss where
      s: "rmatch U F r (prev_at (Some x) xs k, drop k xs, Map.empty) = s # ss"
         "m = mk_match (m_start m) (drop k xs) s"
      unfolding k_def by blast
    have none: "\<forall>j<k. rmatch U F r (prev_at (Some x) xs j, drop j xs, Map.empty) = []"
      using ih unfolding k_def by blast
    have a: "i \<le> m_start m" using si by simp
    have b: "m_start m - i \<le> length (x # xs)" using kl ki by simp
    have c: "\<exists>s ss. rmatch U F r (prev_at p (x # xs) (m_start m - i), drop (m_start m - i) (x # xs), Map.empty) = s # ss
        \<and> m = mk_match (m_start m) (drop (m_start m - i) (x # xs)) s"
      using s by (simp add: ki prev_at_Cons)
    have d: "\<forall>j < m_start m - i. rmatch U F r (prev_at p (x # xs) j, drop j (x # xs), Map.empty) = []"
    proof (intro allI impI)
      fix j assume "j < m_start m - i"
      then have jk: "j < Suc k" by (simp add: ki)
      show "rmatch U F r (prev_at p (x # xs) j, drop j (x # xs), Map.empty) = []"
      proof (cases j)
        case 0
        then show ?thesis using Nil by (simp add: prev_at_def)
      next
        case (Suc j')
        with jk have "j' < k" by simp
        with none have "rmatch U F r (prev_at (Some x) xs j', drop j' xs, Map.empty) = []" by blast
        then show ?thesis by (simp add: Suc prev_at_Cons)
      qed
    qed
    from a b c d show ?thesis by blast
  next
    case (Cons s ss)
    with Cons.prems have "m = mk_match i (x # xs) s" by simp
    with Cons show ?thesis by (simp add: prev_at_def)
  qed
qed

lemma re_search_result:
  "re_search U F r text = Some m \<Longrightarrow>
     m_start m \<le> length text \<and>
     (\<exists>s ss. rmatch U F r (prev_at None text (m_start m), drop (m_start m) text, Map.empty) = s # ss
        \<and> m = mk_match (m_start m) (drop (m_start m) text) s) \<and>
     (\<forall>j < m_start m. rmatch U F r (prev_at None text j, drop j text, Map.empty) = [])"
  using search_from_result[of U F r 0 None "text" m] by (simp add: re_search_def)


lemma finditer_from_result:
  "m \<in> set (finditer_from U F r k i p rest) \<Longrightarrow>
     \<exists>p' rest' s. s \<in> set (rmatch U F r (p', rest', Map.empty)) \<and> m = mk_match (m_start m) rest' s"
proof (induction rest arbitrary: k i p)
  case Nil
  then show ?case by (auto split: if_splits list.splits) (metis list.set_intros(1) m_start_mk_match)
next
  case (Cons x xs)
  show ?case
  proof (cases "0 < k")
    case True
    with Cons.prems have "m \<in> set (finditer_from U F r (k - 1) (Suc i) (Some x) xs)" by simp
    from Cons.IH[OF this] show ?thesis .
  next
    case k0: False
    show ?thesis
    proof (cases "rmatch U F r (p, x # xs, Map.empty)")
      case Nil
      with k0 Cons.prems have "m \<in> set (finditer_from U F r 0 (Suc i) (Some x) xs)" by simp
      from Cons.IH[OF this] show ?thesis .
    next
      case (Cons s ss)
      have s_in: "s \<in> set (rmatch U F r (p, x # xs, Map.empty))" using Cons by simp
      have t_in: "\<And>t. find (\<lambda>t. 0 < consumed (x # xs) t) ss = Some t \<Longrightarrow> t \<in> set (rmatch U F r (p, x # xs, Map.empty))"
        using Cons by (auto simp: find_Some_iff)
      from Cons.prems k0 Cons consider
          (hd) "m = mk_match i (x # xs) s"
        | (nx) t where "find (\<lambda>t. 0 < consumed (x # xs) t) ss = Some t" "m = mk_match i (x # xs) t"
        | (tl) k' where "m \<in> set (finditer_from U F r k' (Suc i) (Some x) xs)"
        by (auto split: if_splits option.splits)
      then show ?thesis
      proof cases
        case hd
        with s_in show ?thesis by (metis m_start_mk_match)
      next
        case nx
        with t_in show ?thesis by (metis m_start_mk_match)
      next
        case tl
        from Cons.IH[OF this] show ?thesis .
      qed
    qed
  qed
qed

lemma re_search_caps:
  assumes "re_search U F r text = Some m"
  obtains p rest s where "s \<in> set (rmatch U F r (p, rest, Map.empty))" "m_caps m = snd (snd s)"
proof -
  from re_search_result[OF assms] obtain s ss where
    a: "rmatch U F r (prev_at None text (m_start m), drop (m_start m) text, Map.empty) = s # ss"
    and b: "m = mk_match (m_start m) (drop (m_start m) text) s" by blast
  from a have "s \<in> set (rmatch U F r (prev_at None text (m_start m), drop (m_start m) text, Map.empty))"
    by simp
  moreover from b have "m_caps m = snd (snd s)"
    by (metis mk_match_def rematch.select_convs(3))
  ultimately show ?thesis using that by blast
qed

lemma finditer_caps:
  assumes "m \<in> set (re_finditer U F r text)"
  obtains p rest s where "s \<in> set (rmatch U F r (p, rest, Map.empty))" "m_caps m = snd (snd s)"
proof -
  from assms have "m \<in> set (finditer_from U F r 0 0 None text)" by (simp add: re_finditer_def)
  from finditer_from_result[OF this] obtain p' rest' s where
    a: "s \<in> set (rmatch U F r (p', rest', Map.empty))" and b: "m = mk_match (m_start m) rest' s"
    by blast
  from b have "m_caps m = snd (snd s)"
    by (metis mk_match_def rematch.select_convs(3))
  with a show ?thesis using that by blast
qed



section \<open>Properties of the pattern matcher\<close>

lemma find_first_match_capture:
  "find_first_match U text (p # ps) =
     (case capture U text p of None \<Rightarrow> find_first_match U text ps | Some g \<Rightarrow> Some (strip g))"
  by (simp add: capture_def split: option.splits)

lemma find_first_match_find:
  "find_first_match U text ps =
     (case find (\<lambda>p. capture U text p \<noteq> None) ps of
        None \<Rightarrow> None
      | Some p \<Rightarrow> map_option strip (capture U text p))"
  by (induction ps)
     (auto simp add: find_first_match_capture simp del: find_first_match.simps(2)
           split: option.splits)

lemma find_first_match_None:
  "find_first_match U text ps = None \<longleftrightarrow> (\<forall>p \<in> set ps. capture U text p = None)"
  by (induction ps)
     (auto simp add: find_first_match_capture simp del: find_first_match.simps(2)
           split: option.splits)

text \<open>
  C2, as the specification words it, fails: the pattern \<open>(a?)\<close> matches the text \<open>b\<close> with an
  empty group, and the matcher goes on to the pattern \<open>(b)\<close> and returns \<open>b\<close>, where the first
  matching pattern alone would give no result.
\<close>

theorem find_first_match_falls_through:
  "find_first_match plain_ucd (ascii ''b'')
     [Grp 1 (Rep True 0 (Some 1) [CChar 0x61]), Grp 1 (Lit (ascii ''b''))] = Some (ascii ''b'')
   \<and> first_match_decides plain_ucd (ascii ''b'')
     [Grp 1 (Rep True 0 (Some 1) [CChar 0x61]), Grp 1 (Lit (ascii ''b''))] = None"
  by (simp add: ev)

text \<open>
  C2, amended: the result of \<open>find_first_match\<close> is the stripped first truthy group of the
  first pattern, in the order of the list, whose leftmost match has a truthy group; patterns
  that do not match, or match with empty or unset groups only, are passed over; the result
  is absent exactly when no pattern of the list has such a match.
\<close>

theorem find_first_match_first_capture:
  "find_first_match U text ps =
     (case find (\<lambda>p. capture U text p \<noteq> None) ps of
        None \<Rightarrow> None
      | Some p \<Rightarrow> map_option strip (capture U text p))
   \<and> (find_first_match U text ps = None \<longleftrightarrow> (\<forall>p \<in> set ps. capture U text p = None))"
  by (rule conjI [OF find_first_match_find find_first_match_None])

theorem find_first_match_first_capture_witness:
  "find_first_match plain_ucd (ascii ''b'')
     [Grp 1 (Rep True 0 (Some 1) [CChar 0x61]), Grp 1 (Lit (ascii ''b''))] = Some (ascii ''b'')
   \<and> capture plain_ucd (ascii ''b'') (Grp 1 (Rep True 0 (Some 1) [CChar 0x61])) = None
   \<and> capture plain_ucd (ascii ''b'') (Grp 1 (Lit (ascii ''b''))) = Some (ascii ''b'')"
proof -
  have c1: "capture plain_ucd (ascii ''b'') (Grp 1 (Rep True 0 (Some 1) [CChar 0x61])) = None"
    by (simp add: capture_def ev)
  have c2: "capture plain_ucd (ascii ''b'') (Grp 1 (Lit (ascii ''b''))) = Some (ascii ''b'')"
    by (simp add: capture_def ev)
  have s: "strip (ascii ''b'') = ascii ''b''"
    by (simp add: ev)
  from find_first_match_first_capture
    [of plain_ucd "ascii ''b''" "[Grp 1 (Rep True 0 (Some 1) [CChar 0x61]), Grp 1 (Lit (ascii ''b''))]"]
  show ?thesis using c1 c2 s by simp
qed

section \<open>Properties of the date resolver\<close>


lemma numeric_date_captures:
  assumes "s \<in> set (rmatch U F numeric_date_pattern (p, r, c))"
  shows "\<exists>g1 g2 g3. snd (snd s) 1 = Some g1 \<and> g1 \<noteq> [] \<and> snd (snd s) 2 = Some g2 \<and> g2 \<noteq> []
           \<and> snd (snd s) 3 = Some g3 \<and> g3 \<noteq> []"
proof -
  note a = assms[unfolded numeric_date_pattern_def seqs.simps]
  from a obtain s1 where
    s1: "s1 \<in> set (rmatch U F (Grp 1 (Rep True 1 (Some 2) [CDigit])) (p, r, c))" and
    t1: "s \<in> set (rmatch U F (Seq (Cls [CChar 0x2F, CChar 0x2D]) (Seq (Grp 2 (Rep True 1 (Some 2) [CDigit]))
            (Seq (Cls [CChar 0x2F, CChar 0x2D]) (Grp 3 (Rep True 2 (Some 4) [CDigit]))))) s1)"
    by (rule rmatch_Seq_elim)
  from t1 obtain s2 where
    s2: "s2 \<in> set (rmatch U F (Cls [CChar 0x2F, CChar 0x2D]) s1)" and
    t2: "s \<in> set (rmatch U F (Seq (Grp 2 (Rep True 1 (Some 2) [CDigit]))
            (Seq (Cls [CChar 0x2F, CChar 0x2D]) (Grp 3 (Rep True 2 (Some 4) [CDigit])))) s2)"
    by (rule rmatch_Seq_elim)
  from t2 obtain s3 where
    s3: "s3 \<in> set (rmatch U F (Grp 2 (Rep True 1 (Some 2) [CDigit])) s2)" and
    t3: "s \<in> set (rmatch U F (Seq (Cls [CChar 0x2F, CChar 0x2D]) (Grp 3 (Rep True 2 (Some 4) [CDigit]))) s3)"
    by (rule rmatch_Seq_elim)
  from t3 obtain s4 where
    s4: "s4 \<in> set (rmatch U F (Cls [CChar 0x2F, CChar 0x2D]) s3)" and
    s5: "s \<in> set (rmatch U F (Grp 3 (Rep True 2 (Some 4) [CDigit])) s4)"
    by (rule rmatch_Seq_elim)
  obtain p1 r1 c1 where e1: "s1 = (p1, r1, c1)" by (cases s1)
  obtain p2 r2 c2 where e2: "s2 = (p2, r2, c2)" by (cases s2)
  obtain p3 r3 c3 where e3: "s3 = (p3, r3, c3)" by (cases s3)
  obtain p4 r4 c4 where e4: "s4 = (p4, r4, c4)" by (cases s4)
  obtain p5 r5 c5 where e5: "s = (p5, r5, c5)" by (cases s)
  from grp_rep_capture[OF s1[unfolded e1]] obtain g1 where g1: "c1 = c(1 \<mapsto> g1)" "1 \<le> length g1" by blast
  from cls_result[OF s2[unfolded e1 e2]] have c2: "c2 = c1" .
  from grp_rep_capture[OF s3[unfolded e2 e3]] obtain g2 where g2: "c3 = c2(2 \<mapsto> g2)" "1 \<le> length g2" by blast
  from cls_result[OF s4[unfolded e3 e4]] have c4: "c4 = c3" .
  from grp_rep_capture[OF s5[unfolded e4 e5]] obtain g3 where g3: "c5 = c4(3 \<mapsto> g3)" "2 \<le> length g3" by blast
  have ne: "g1 \<noteq> []" "g2 \<noteq> []" "g3 \<noteq> []" using g1(2) g2(2) g3(2) by auto
  have "c5 1 = Some g1" "c5 2 = Some g2" "c5 3 = Some g3"
    by (simp_all add: g1(1) g2(1) g3(1) c2 c4)
  with ne e5 show ?thesis by simp
qed

lemma month_keys_nonempty: "[] \<notin> set month_keys"
  by (simp add: month_keys_def parse_thai_months_def ascii_def)

lemma month_year_captures:
  assumes "s \<in> set (rmatch U F month_year_pattern (p, r, c))"
  shows "\<exists>g1 g2. snd (snd s) 1 = Some g1 \<and> g1 \<noteq> [] \<and> snd (snd s) 2 = Some g2 \<and> g2 \<noteq> []"
proof -
  note a = assms[unfolded month_year_pattern_def seqs.simps]
  from a obtain s1 where
    s1: "s1 \<in> set (rmatch U F (Grp 1 (alts (map Lit month_keys))) (p, r, c))" and
    t1: "s \<in> set (rmatch U F (Seq (Rep True 1 None [CSpace, CChar 0x2F, CChar 0x2E, CChar 0x2D])
             (Grp 2 (Rep True 2 (Some 4) [CDigit]))) s1)"
    by (rule rmatch_Seq_elim)
  from t1 obtain s2 where
    s2: "s2 \<in> set (rmatch U F (Rep True 1 None [CSpace, CChar 0x2F, CChar 0x2E, CChar 0x2D]) s1)" and
    s3: "s \<in> set (rmatch U F (Grp 2 (Rep True 2 (Some 4) [CDigit])) s2)"
    by (rule rmatch_Seq_elim)
  obtain p1 r1 c1 where e1: "s1 = (p1, r1, c1)" by (cases s1)
  obtain p2 r2 c2 where e2: "s2 = (p2, r2, c2)" by (cases s2)
  obtain p3 r3 c3 where e3: "s = (p3, r3, c3)" by (cases s)
  from grp_alts_lits_capture[OF s1[unfolded e1]] obtain k where
    k: "k \<in> set month_keys" "c1 = c(1 \<mapsto> take (length k) r)" "length k \<le> length r" by blast
  from rep_result_caps[OF s2[unfolded e1 e2]] have c2: "c2 = c1" .
  from grp_rep_capture[OF s3[unfolded e2 e3]] obtain g2 where g2: "c3 = c2(2 \<mapsto> g2)" "2 \<le> length g2" by blast
  have "k \<noteq> []" using k(1) month_keys_nonempty by auto
  then have n1: "take (length k) r \<noteq> []" using k(3) by (cases r) auto
  have n2: "g2 \<noteq> []" using g2(2) by auto
  have "c3 1 = Some (take (length k) r)" "c3 2 = Some g2" by (simp_all add: k(2) g2(1) c2)
  with n1 n2 e3 show ?thesis by simp
qed

lemma day_captures:
  assumes "s \<in> set (rmatch U F day_pattern (p, r, c))"
  shows "\<exists>g1. snd (snd s) 1 = Some g1 \<and> g1 \<noteq> []"
proof -
  note a = assms[unfolded day_pattern_def seqs.simps]
  from a obtain s1 where
    s1: "s1 \<in> set (rmatch U F WordB (p, r, c))" and
    t1: "s \<in> set (rmatch U F (Seq (Grp 1 (Rep True 1 (Some 2) [CDigit])) WordB) s1)"
    by (rule rmatch_Seq_elim)
  from t1 obtain s2 where
    s2: "s2 \<in> set (rmatch U F (Grp 1 (Rep True 1 (Some 2) [CDigit])) s1)" and
    s3: "s \<in> set (rmatch U F WordB s2)"
    by (rule rmatch_Seq_elim)
  obtain p2 r2 c2 where e2: "s2 = (p2, r2, c2)" by (cases s2)
  from wordb_result[OF s1] have e1: "s1 = (p, r, c)" .
  from grp_rep_capture[OF s2[unfolded e1 e2]] obtain g1 where g1: "c2 = c(1 \<mapsto> g1)" "1 \<le> length g1" by blast
  from wordb_result[OF s3] have "s = s2" .
  moreover have "g1 \<noteq> []" using g1(2) by auto
  ultimately show ?thesis using g1(1) e2 by simp
qed

lemma day_findall_nonempty:
  assumes "g \<in> set (re_findall U F day_pattern text)"
  shows "g \<noteq> []"
proof -
  from assms obtain m where m: "m \<in> set (re_finditer U F day_pattern text)"
    and g: "g = (case group m 1 of None \<Rightarrow> [] | Some g \<Rightarrow> g)"
    by (auto simp: re_findall_def)
  from m obtain p rest s where s: "s \<in> set (rmatch U F day_pattern (p, rest, Map.empty))"
    "m_caps m = snd (snd s)" by (rule finditer_caps)
  from day_captures[OF s(1)] s(2) g show ?thesis by (auto simp: group_def)
qed

lemma date_components_truthy:
  assumes "date_components U text = Some (day_str, month_str, year_str)"
  shows "\<exists>d m y. day_str = Some d \<and> month_str = Some m \<and> year_str = Some y
           \<and> d \<noteq> [] \<and> m \<noteq> [] \<and> y \<noteq> []"
proof (cases "re_search U flags_I month_year_pattern text")
  case None
  with assms obtain nm where nm: "re_search U no_flags numeric_date_pattern text = Some nm"
    and e: "day_str = group nm 1" "month_str = group nm 2" "year_str = group nm 3"
    by (auto simp: date_components_def split: option.splits)
  from nm obtain p rest s where s: "s \<in> set (rmatch U no_flags numeric_date_pattern (p, rest, Map.empty))"
    "m_caps nm = snd (snd s)" by (rule re_search_caps)
  from numeric_date_captures[OF s(1)] s(2) e show ?thesis by (auto simp: group_def)
next
  case (Some mm)
  define days where "days = re_findall U no_flags day_pattern (take (m_start mm) text)"
  from assms Some have ne: "days \<noteq> []"
    and e: "day_str = Some (last days)" "month_str = group mm 1" "year_str = group mm 2"
    by (auto simp: date_components_def Let_def days_def split: if_splits)
  from ne have "last days \<in> set days" by simp
  then have d: "last days \<noteq> []" unfolding days_def by (rule day_findall_nonempty)
  from Some obtain p rest s where s: "s \<in> set (rmatch U flags_I month_year_pattern (p, rest, Map.empty))"
    "m_caps mm = snd (snd s)" by (rule re_search_caps)
  from month_year_captures[OF s(1)] s(2) e d show ?thesis by (auto simp: group_def)
qed

lemma date_components_None:
  "date_components U text = None \<longleftrightarrow>
     (case re_search U flags_I month_year_pattern text of
        None \<Rightarrow> re_search U no_flags numeric_date_pattern text = None
      | Some mm \<Rightarrow> re_findall U no_flags day_pattern (take (m_start mm) text) = [])"
  by (simp add: date_components_def Let_def split: option.splits)

lemma find_date_None: "find_date U now_year text = None \<longleftrightarrow> date_components U text = None"
proof (cases "date_components U text")
  case None
  then show ?thesis by (simp add: find_date_def)
next
  case (Some t)
  obtain d m y where t: "t = (d, m, y)" by (cases t)
  from date_components_truthy[OF Some[unfolded t]] have tr: "truthy d" "truthy m" "truthy y" by auto
  show ?thesis using Some t tr by (simp add: find_date_def split: sum.splits)
qed

lemma find_date_fallback:
  assumes "date_components U text = Some (day_str, month_str, year_str)"
    and "convert_date U now_year day_str month_str year_str = Inl e"
  shows "\<exists>d m y. day_str = Some d \<and> month_str = Some m \<and> year_str = Some y
           \<and> d \<noteq> [] \<and> m \<noteq> [] \<and> y \<noteq> []
           \<and> find_date U now_year text = Some (d @ [0x20] @ m @ [0x20] @ y)"
proof -
  from date_components_truthy[OF assms(1)] obtain d m y where
    e: "day_str = Some d" "month_str = Some m" "year_str = Some y" "d \<noteq> []" "m \<noteq> []" "y \<noteq> []"
    by blast
  with assms have "find_date U now_year text = Some (d @ [0x20] @ m @ [0x20] @ y)"
    by (simp add: find_date_def)
  with e show ?thesis by blast
qed



















text \<open>
  C4, as stated, fails in its second half: the text \<open><Jan.> 67 1/2/24\<close> has a month and
  year, and a numeric date as well, and \<open>_find_date\<close> returns nothing, because no number
  stands before the month and the numeric pattern is tried only when no month and year is
  found.
\<close>

theorem find_date_absent_with_patterns:
  "find_date plain_ucd 2025 ([0x0E21, 0x2E, 0x0E04, 0x2E] @ ascii '' 67 1/2/24'') = None
   \<and> re_search plain_ucd flags_I month_year_pattern
        ([0x0E21, 0x2E, 0x0E04, 0x2E] @ ascii '' 67 1/2/24'') \<noteq> None
   \<and> re_search plain_ucd no_flags numeric_date_pattern
        ([0x0E21, 0x2E, 0x0E04, 0x2E] @ ascii '' 67 1/2/24'') \<noteq> None"
  by (simp add: ev ev_date)

text \<open>
  C4, amended. \<open>_find_date\<close> returns nothing exactly in two cases: the text has neither a
  month and year nor a numeric date, or it has a month and year and no number of one or
  two digits, standing alone, before it. In every other case the day, month and year
  strings are found and are not empty, and when their conversion raises an exception the
  result is the three strings joined by single spaces.
\<close>

theorem find_date_degrades:
  "(find_date U now_year text = None \<longleftrightarrow>
      (case re_search U flags_I month_year_pattern text of
         None \<Rightarrow> re_search U no_flags numeric_date_pattern text = None
       | Some mm \<Rightarrow> re_findall U no_flags day_pattern (take (m_start mm) text) = []))
   \<and> (\<forall>day_str month_str year_str e.
         date_components U text = Some (day_str, month_str, year_str) \<and>
         convert_date U now_year day_str month_str year_str = Inl e \<longrightarrow>
         (\<exists>d m y. day_str = Some d \<and> month_str = Some m \<and> year_str = Some y
            \<and> d \<noteq> [] \<and> m \<noteq> [] \<and> y \<noteq> []
            \<and> find_date U now_year text = Some (d @ [0x20] @ m @ [0x20] @ y)))"
proof (rule conjI)
  show "find_date U now_year text = None \<longleftrightarrow>
      (case re_search U flags_I month_year_pattern text of
         None \<Rightarrow> re_search U no_flags numeric_date_pattern text = None
       | Some mm \<Rightarrow> re_findall U no_flags day_pattern (take (m_start mm) text) = [])"
    by (simp only: find_date_None date_components_None)
next
  show "\<forall>day_str month_str year_str e.
         date_components U text = Some (day_str, month_str, year_str) \<and>
         convert_date U now_year day_str month_str year_str = Inl e \<longrightarrow>
         (\<exists>d m y. day_str = Some d \<and> month_str = Some m \<and> year_str = Some y
            \<and> d \<noteq> [] \<and> m \<noteq> [] \<and> y \<noteq> []
            \<and> find_date U now_year text = Some (d @ [0x20] @ m @ [0x20] @ y))"
    using find_date_fallback by blast
qed

text \<open>The witness: 31 February, which no calendar has, comes back as it was read.\<close>

theorem find_date_degrades_witness:
  "date_components plain_ucd (ascii ''31 '' @ [0x0E01, 0x2E, 0x0E1E, 0x2E] @ ascii '' 2567'') =
     Some (Some (ascii ''31''), Some [0x0E01, 0x2E, 0x0E1E, 0x2E], Some (ascii ''2567''))
   \<and> convert_date plain_ucd 2025 (Some (ascii ''31'')) (Some [0x0E01, 0x2E, 0x0E1E, 0x2E])
        (Some (ascii ''2567'')) = Inl ValueError
   \<and> find_date plain_ucd 2025 (ascii ''31 '' @ [0x0E01, 0x2E, 0x0E1E, 0x2E] @ ascii '' 2567'') =
     Some (ascii ''31 '' @ [0x0E01, 0x2E, 0x0E1E, 0x2E] @ ascii '' 2567'')"
proof -
  let ?t = "ascii ''31 '' @ [0x0E01, 0x2E, 0x0E1E, 0x2E] @ ascii '' 2567''"
  have c: "date_components plain_ucd ?t =
     Some (Some (ascii ''31''), Some [0x0E01, 0x2E, 0x0E1E, 0x2E], Some (ascii ''2567''))"
    by (simp add: ev ev_date)
  have e: "convert_date plain_ucd 2025 (Some (ascii ''31'')) (Some [0x0E01, 0x2E, 0x0E1E, 0x2E])
        (Some (ascii ''2567'')) = Inl ValueError"
    by (simp add: ev ev_date)
  from find_date_degrades[of plain_ucd 2025 ?t] c e
  have "\<exists>d m y. Some (ascii ''31'') = Some d \<and> Some [0x0E01, 0x2E, 0x0E1E, 0x2E] = Some m
          \<and> Some (ascii ''2567'') = Some y \<and> d \<noteq> [] \<and> m \<noteq> [] \<and> y \<noteq> []
          \<and> find_date plain_ucd 2025 ?t = Some (d @ [0x20] @ m @ [0x20] @ y)"
    by blast
  then have "find_date plain_ucd 2025 ?t =
      Some (ascii ''31'' @ [0x20] @ [0x0E01, 0x2E, 0x0E1E, 0x2E] @ [0x20] @ ascii ''2567'')"
    by auto
  with c e show ?thesis by (simp add: ascii_def)
qed

section \<open>Properties of the name extractor\<close>

lemma re_match_result:
  assumes "re_match U F r text = Some m"
  obtains s ss where "rmatch U F r (None, text, Map.empty) = s # ss" "m = mk_match 0 text s"
  using assms by (auto simp: re_match_def split: list.splits)

lemma anchored_group_set:
  assumes "s \<in> set (rmatch U F (Seq Bol (Grp 1 X)) st)"
  shows "\<exists>g. snd (snd s) 1 = Some g"
proof -
  from assms obtain s1 where s1: "s1 \<in> set (rmatch U F Bol st)"
    and s2: "s \<in> set (rmatch U F (Grp 1 X) s1)" by (rule rmatch_Seq_elim)
  obtain p1 r1 c1 where e1: "s1 = (p1, r1, c1)" by (cases s1)
  obtain p r c where e: "s = (p, r, c)" by (cases s)
  from s2[unfolded e1 e] obtain c'' where "c = c''(1 \<mapsto> take (length r1 - length r) r1)"
    by (rule rmatch_Grp_elim)
  with e show ?thesis by simp
qed

lemma name_pattern_shape: "\<exists>X. name_pattern = Seq Bol (Grp 1 X)"
  by (simp add: name_pattern_def)

lemma standalone_name_pattern_shape: "\<exists>X. standalone_name_pattern = Seq Bol (Grp 1 X)"
  by (simp add: standalone_name_pattern_def)

lemma anchored_match_group:
  assumes "re_match U F r text = Some m" and "\<exists>X. r = Seq Bol (Grp 1 X)"
  shows "\<exists>g. group m 1 = Some g"
proof -
  from assms(1) obtain s ss where s: "rmatch U F r (None, text, Map.empty) = s # ss"
    and m: "m = mk_match 0 text s" by (rule re_match_result)
  from assms(2) obtain X where X: "r = Seq Bol (Grp 1 X)" by blast
  from s X have "s \<in> set (rmatch U F (Seq Bol (Grp 1 X)) (None, text, Map.empty))" by simp
  from anchored_group_set[OF this] m show ?thesis by (simp add: group_def mk_match_def)
qed

lemma standalone_loop_total:
  "\<exists>r. standalone_loop U kws previous lines = Inr r"
proof (induction lines arbitrary: previous)
  case Nil
  show ?case by simp
next
  case (Cons line lines)
  show ?case
  proof (cases "re_match U flags_I standalone_name_pattern line")
    case None
    with Cons.IH[of line] show ?thesis by simp
  next
    case (Some nm)
    from anchored_match_group[OF Some standalone_name_pattern_shape] obtain g where
      "group nm 1 = Some g" by blast
    with Some Cons.IH[of line] show ?thesis by (simp add: and_then_def)
  qed
qed

lemma find_standalone_name_total: "\<exists>r. find_standalone_name U text kws = Inr r"
  using standalone_loop_total by (simp add: find_standalone_name_def split: list.splits)

lemma names_loop_step:
  "names_loop U found (line # lines) =
     names_loop U (case line_name U line lines of
                     None \<Rightarrow> found
                   | Some name \<Rightarrow> if name \<in> set found then found else found @ [name]) lines"
proof (cases "re_match U flags_I name_pattern line")
  case None
  then show ?thesis by (simp add: line_name_def)
next
  case (Some nm)
  from anchored_match_group[OF Some name_pattern_shape] obtain g where
    g: "group nm 1 = Some g" by blast
  show ?thesis using Some g
    by (simp add: line_name_def and_then_def Let_def)
qed

lemma names_loop_candidates:
  "names_loop U found lines = Inr (found @ keep_first found (candidates U lines))"
proof (induction lines arbitrary: found)
  case Nil
  show ?case by simp
next
  case (Cons line lines)
  show ?case
    by (simp only: names_loop_step Cons.IH)
       (simp split: option.splits)
qed

lemma keep_first_distinct:
  "distinct seen \<Longrightarrow> distinct (seen @ keep_first seen xs)"
proof (induction xs arbitrary: seen)
  case Nil
  then show ?case by simp
next
  case (Cons x xs)
  show ?case
  proof (cases "x \<in> set seen")
    case True
    with Cons show ?thesis by simp
  next
    case False
    with Cons.prems have "distinct (seen @ [x])" by simp
    from Cons.IH[OF this] False show ?thesis by simp
  qed
qed

lemma find_names_by_account_number_eq:
  "find_names_by_account_number U text = Inr (keep_first [] (candidates U (stripped_lines text)))"
  by (simp add: find_names_by_account_number_def names_loop_candidates)

lemma find_names_eq:
  "find_names U text =
     (let s0 = resolve_role U text sender_keywords;
          r0 = resolve_role U text recipient_keywords;
          names = keep_first [] (candidates U (stripped_lines text))
      in Inr (if \<not> truthy s0 \<and> 1 \<le> length names then Some (names ! 0) else s0,
              if \<not> truthy r0 \<and> 2 \<le> length names then Some (names ! 1) else r0))"
proof -
  obtain a where a: "find_standalone_name U text sender_keywords = Inr a"
    using find_standalone_name_total by blast
  obtain b where b: "find_standalone_name U text recipient_keywords = Inr b"
    using find_standalone_name_total by blast
  show ?thesis
    by (simp add: find_names_def resolve_role_def a b find_names_by_account_number_eq
          and_then_def py_index_def Let_def)
qed

text \<open>
  C6, as stated, fails: in the text \<open>From Al / Bob x12345\<close> (two lines) the sender is
  resolved by its keyword, the recipient is resolved by neither the keyword nor the line
  strategy, and the recipient is then filled with the second name found by position. The
  positional strategy runs when one of the two roles is missing, not only when both are.
\<close>

theorem find_names_one_role_missing:
  "parse_name plain_ucd (ascii ''From Al'' @ [0x0A] @ ascii ''Bob x12345'') sender_keywords =
     Some (ascii ''Al'')
   \<and> parse_name plain_ucd (ascii ''From Al'' @ [0x0A] @ ascii ''Bob x12345'') recipient_keywords =
     None
   \<and> find_standalone_name plain_ucd (ascii ''From Al'' @ [0x0A] @ ascii ''Bob x12345'')
       recipient_keywords = Inr None
   \<and> find_names_by_account_number plain_ucd (ascii ''From Al'' @ [0x0A] @ ascii ''Bob x12345'') =
     Inr [ascii ''From Al'', ascii ''Bob x'']
   \<and> find_names plain_ucd (ascii ''From Al'' @ [0x0A] @ ascii ''Bob x12345'') =
     Inr (Some (ascii ''Al''), Some (ascii ''Bob x''))"
proof -
  let ?t = "ascii ''From Al'' @ [0x0A] @ ascii ''Bob x12345''"
  have a: "parse_name plain_ucd ?t sender_keywords = Some (ascii ''Al'')"
    by (simp add: ev ev_names)
  have b: "parse_name plain_ucd ?t recipient_keywords = None"
    by (simp add: ev ev_names)
  have c: "find_standalone_name plain_ucd ?t recipient_keywords = Inr None"
    by (simp add: ev ev_names)
  have d: "find_names_by_account_number plain_ucd ?t = Inr [ascii ''From Al'', ascii ''Bob x'']"
    by (simp add: ev ev_names)
  have e: "find_names plain_ucd ?t = Inr (Some (ascii ''Al''), Some (ascii ''Bob x''))"
    using a b c d by (simp add: find_names_def and_then_def py_index_def ascii_def)
  from a b c d e show ?thesis by blast
qed

text \<open>
  C6, amended. Let \<open>s0\<close> and \<open>r0\<close> be what the keyword strategy, or else the line
  strategy, gives for the sender and for the recipient. The names found by position are
  the names of the lines in document order without their later duplicates. The sender is
  the first of them when \<open>s0\<close> is missing and there is one, and \<open>s0\<close> otherwise; the
  recipient is the second of them when \<open>r0\<close> is missing and there are two, and \<open>r0\<close>
  otherwise. So the names found by position count as soon as one role is missing, and the
  recipient takes the second name also when the sender was resolved before.
\<close>

theorem find_names_by_position:
  "find_names U text =
     (let s0 = resolve_role U text sender_keywords;
          r0 = resolve_role U text recipient_keywords;
          names = keep_first [] (candidates U (stripped_lines text))
      in Inr (if \<not> truthy s0 \<and> 1 \<le> length names then Some (names ! 0) else s0,
              if \<not> truthy r0 \<and> 2 \<le> length names then Some (names ! 1) else r0))
   \<and> find_names_by_account_number U text =
       Inr (keep_first [] (candidates U (stripped_lines text)))
   \<and> distinct (keep_first [] (candidates U (stripped_lines text)))"
proof (intro conjI)
  show "find_names U text =
     (let s0 = resolve_role U text sender_keywords;
          r0 = resolve_role U text recipient_keywords;
          names = keep_first [] (candidates U (stripped_lines text))
      in Inr (if \<not> truthy s0 \<and> 1 \<le> length names then Some (names ! 0) else s0,
              if \<not> truthy r0 \<and> 2 \<le> length names then Some (names ! 1) else r0))"
    by (rule find_names_eq)
  show "find_names_by_account_number U text =
       Inr (keep_first [] (candidates U (stripped_lines text)))"
    by (rule find_names_by_account_number_eq)
  show "distinct (keep_first [] (candidates U (stripped_lines text)))"
    using keep_first_distinct[of "[]" "candidates U (stripped_lines text)"] by simp
qed

theorem find_names_by_position_witness:
  "resolve_role plain_ucd (ascii ''To Al'' @ [0x0A] @ ascii ''Bob x12345'') sender_keywords = None
   \<and> resolve_role plain_ucd (ascii ''To Al'' @ [0x0A] @ ascii ''Bob x12345'') recipient_keywords =
       Some (ascii ''Al'')
   \<and> keep_first [] (candidates plain_ucd
        (stripped_lines (ascii ''To Al'' @ [0x0A] @ ascii ''Bob x12345''))) =
       [ascii ''To Al'', ascii ''Bob x'']
   \<and> find_names plain_ucd (ascii ''To Al'' @ [0x0A] @ ascii ''Bob x12345'') =
       Inr (Some (ascii ''To Al''), Some (ascii ''Al''))"
proof -
  let ?t = "ascii ''To Al'' @ [0x0A] @ ascii ''Bob x12345''"
  have a: "resolve_role plain_ucd ?t sender_keywords = None"
    by (simp add: resolve_role_def ev ev_names)
  have b: "resolve_role plain_ucd ?t recipient_keywords = Some (ascii ''Al'')"
    by (simp add: resolve_role_def ev ev_names)
  have c: "keep_first [] (candidates plain_ucd (stripped_lines ?t)) =
       [ascii ''To Al'', ascii ''Bob x'']"
    by (simp add: line_name_def ev ev_names)
  from find_names_by_position[of plain_ucd ?t] a b c
  have "find_names plain_ucd ?t = Inr (Some (ascii ''To Al''), Some (ascii ''Al''))"
    by (simp add: ascii_def)
  with a b c show ?thesis by blast
qed

section \<open>Properties of the orchestrator\<close>

lemma find_names_total: "\<exists>names. find_names U text = Inr names"
  by (simp add: find_names_eq Let_def)

lemma parse_payment_slip_fields:
  assumes "text \<noteq> []" and "find_names U text = Inr (sender, recipient)"
  shows "\<exists>d. parse_payment_slip U now_year (Some text) = Inr d
           \<and> d ''raw_text'' = Some (Some text)
           \<and> d ''bank'' = Some (find_bank U text)
           \<and> d ''amount'' = Some (parse_amount U text)
           \<and> d ''date'' = Some (find_date U now_year text)
           \<and> d ''time'' = Some (find_time U text)
           \<and> d ''sender'' = Some (clean_ocr_name U sender)
           \<and> d ''recipient'' = Some (clean_ocr_name U recipient)
           \<and> d ''reference'' = Some (find_reference U text)
           \<and> d ''error'' = None"
  using assms by (simp add: parse_payment_slip_def and_then_def Let_def)

lemma parse_payment_slip_total: "\<exists>d. parse_payment_slip U now_year text_opt = Inr d"
proof (cases text_opt)
  case None
  then show ?thesis by (simp add: parse_payment_slip_def)
next
  case (Some t)
  show ?thesis
  proof (cases "t = []")
    case True
    with Some show ?thesis by (simp add: parse_payment_slip_def)
  next
    case False
    obtain names where "find_names U t = Inr names" using find_names_total by blast
    moreover obtain s r where "names = (s, r)" by (cases names)
    ultimately have "find_names U t = Inr (s, r)" by simp
    from parse_payment_slip_fields[OF False this, of now_year] Some show ?thesis by blast
  qed
qed

text \<open>
  C7: the amount is not always digits, a point and two digits. The class \<^verbatim>\<open>[\d,]+\<close> of
  the amount patterns accepts a run of commas; \<open>Amount ,.00\<close> gives the amount \<open>.00\<close>,
  with no digit before the point.
\<close>

theorem parse_amount_without_digits:
  "parse_amount plain_ucd (ascii ''Amount ,.00'') = Some (ascii ''.00'')
   \<and> (\<exists>d. parse_payment_slip plain_ucd 2025 (Some (ascii ''Amount ,.00'')) = Inr d
          \<and> d ''amount'' = Some (Some (ascii ''.00'')))"
proof -
  have a: "parse_amount plain_ucd (ascii ''Amount ,.00'') = Some (ascii ''.00'')"
    by (simp add: ev ev_fields)
  obtain names where "find_names plain_ucd (ascii ''Amount ,.00'') = Inr names"
    using find_names_total by blast
  moreover obtain s r where "names = (s, r)" by (cases names)
  ultimately have n: "find_names plain_ucd (ascii ''Amount ,.00'') = Inr (s, r)" by simp
  have ne: "ascii ''Amount ,.00'' \<noteq> []" by (simp add: ascii_def)
  from parse_payment_slip_fields[OF ne n, of 2025] a show ?thesis by auto
qed

text \<open>
  C8: the reference can hold white space. Its pattern accepts every white space, and only
  the space U+0020 is removed afterwards; \<open>Ref A\<close>, a line feed and \<open>B\<close> give a reference
  with the line feed in it.
\<close>

theorem find_reference_keeps_newline:
  "find_reference plain_ucd (ascii ''Ref A'' @ [0x0A] @ ascii ''B'') =
     Some (ascii ''A'' @ [0x0A] @ ascii ''B'')
   \<and> isspace 0x0A
   \<and> (\<exists>d. parse_payment_slip plain_ucd 2025 (Some (ascii ''Ref A'' @ [0x0A] @ ascii ''B'')) = Inr d
          \<and> d ''reference'' = Some (Some (ascii ''A'' @ [0x0A] @ ascii ''B'')))"
proof -
  let ?t = "ascii ''Ref A'' @ [0x0A] @ ascii ''B''"
  have a: "find_reference plain_ucd ?t = Some (ascii ''A'' @ [0x0A] @ ascii ''B'')"
    by (simp add: ev ev_fields)
  have b: "isspace 0x0A" by (simp add: isspace_def)
  obtain names where "find_names plain_ucd ?t = Inr names"
    using find_names_total by blast
  moreover obtain s r where "names = (s, r)" by (cases names)
  ultimately have n: "find_names plain_ucd ?t = Inr (s, r)" by simp
  have ne: "?t \<noteq> []" by (simp add: ascii_def)
  from parse_payment_slip_fields[OF ne n, of 2025] a b show ?thesis by auto
qed

text \<open>
  C9: a field can be the empty string. \<open>_clean_ocr_name\<close> returns what is left of a name
  after the leading points are removed, also when nothing is left; \<open>From .\<close> gives the
  sender \<open>.\<close> by keyword, and the empty string in the record.
\<close>

theorem sender_empty_string:
  "parse_name plain_ucd (ascii ''From .'') sender_keywords = Some (ascii ''.'')
   \<and> clean_ocr_name plain_ucd (Some (ascii ''.'')) = Some []
   \<and> (\<exists>d. parse_payment_slip plain_ucd 2025 (Some (ascii ''From .'')) = Inr d
          \<and> d ''sender'' = Some (Some []))"
proof -
  let ?t = "ascii ''From .''"
  have a: "parse_name plain_ucd ?t sender_keywords = Some (ascii ''.'')"
    by (simp add: ev ev_names)
  have b: "parse_name plain_ucd ?t recipient_keywords = None"
    by (simp add: ev ev_names)
  have c: "find_standalone_name plain_ucd ?t recipient_keywords = Inr None"
    by (simp add: ev ev_names)
  have d: "find_names_by_account_number plain_ucd ?t = Inr []"
    by (simp add: ev ev_names)
  have n: "find_names plain_ucd ?t = Inr (Some (ascii ''.''), None)"
    using a b c d by (simp add: find_names_def and_then_def py_index_def ascii_def)
  have e: "clean_ocr_name plain_ucd (Some (ascii ''.'')) = Some []"
    by (simp add: ev ev_names)
  have ne: "?t \<noteq> []" by (simp add: ascii_def)
  from parse_payment_slip_fields[OF ne n, of 2025] e a show ?thesis by auto
qed

text \<open>
  C5: the bank is not always sought in the text before the recipient marker. The
  position of the marker is found in the text and cut from the upper-case text, which is
  longer when a sharp s (U+00DF) stands before the marker. In \<open><sharp s><sharp s>SCB TO BBL\<close>
  the marker \<open>TO\<close> is at position 6; the text before it has the keyword \<open>SCB\<close> of the third
  bank of the table, but the six characters cut from the upper-case text are \<open>SSSSSC\<close>,
  no bank is found there, and the search of the whole text returns the first bank of the
  table, for \<open>BBL\<close> after the marker.
\<close>

theorem find_bank_shifted_window:
  "map_option m_start (re_search plain_ucd flags_I (alts (map Lit recipient_markers))
       ([0xDF, 0xDF] @ ascii ''SCB TO BBL'')) = Some 6
   \<and> take 6 (upper plain_ucd ([0xDF, 0xDF] @ ascii ''SCB TO BBL'')) = ascii ''SSSSSC''
   \<and> first_bank plain_ucd (upper plain_ucd (take 6 ([0xDF, 0xDF] @ ascii ''SCB TO BBL''))) =
       Some (fst (bank_keywords ! 2))
   \<and> find_bank plain_ucd ([0xDF, 0xDF] @ ascii ''SCB TO BBL'') = Some (fst (bank_keywords ! 0))"
  by (simp add: ev ev_bank)

text \<open>
  C1: for a non-empty text the record has no key \<open>error\<close>; for the empty text, and for no
  text, the record has the key \<open>error\<close> and no other.
\<close>

theorem parse_payment_slip_error_key:
  "(text \<noteq> [] \<longrightarrow>
      (\<exists>d. parse_payment_slip U now_year (Some text) = Inr d \<and> d ''error'' = None))
   \<and> parse_payment_slip U now_year (Some []) = Inr [''error'' \<mapsto> Some no_text_message]
   \<and> parse_payment_slip U now_year None = Inr [''error'' \<mapsto> Some no_text_message]
   \<and> dom [''error'' \<mapsto> Some no_text_message] = {''error''}"
proof (intro conjI impI)
  assume ne: "text \<noteq> []"
  obtain names where "find_names U text = Inr names" using find_names_total by blast
  moreover obtain s r where "names = (s, r)" by (cases names)
  ultimately have "find_names U text = Inr (s, r)" by simp
  from parse_payment_slip_fields[OF ne this, of now_year]
  show "\<exists>d. parse_payment_slip U now_year (Some text) = Inr d \<and> d ''error'' = None" by blast
next
  show "parse_payment_slip U now_year (Some []) = Inr [''error'' \<mapsto> Some no_text_message]"
    by (simp add: parse_payment_slip_def)
next
  show "parse_payment_slip U now_year None = Inr [''error'' \<mapsto> Some no_text_message]"
    by (simp add: parse_payment_slip_def)
next
  show "dom [''error'' \<mapsto> Some no_text_message] = {''error''}" by simp
qed

theorem parse_payment_slip_error_key_witness:
  "(\<exists>d. parse_payment_slip plain_ucd 2025 (Some (ascii ''x'')) = Inr d \<and> d ''error'' = None)
   \<and> parse_payment_slip plain_ucd 2025 (Some []) = Inr [''error'' \<mapsto> Some no_text_message]"
  using parse_payment_slip_error_key[of "ascii ''x''" plain_ucd 2025] by (simp add: ascii_def)

text \<open>
  C10: \<open>parse_payment_slip\<close> returns a record for every input and raises nothing. In the
  model every operation of the code that can raise (\<open>int\<close>, \<open>datetime\<close>, an index, a
  method of \<open>None\<close>) has the exception as a result; the function is total, so it
  terminates; and its result is never an exception.
\<close>

theorem parse_payment_slip_never_raises:
  "\<exists>d. parse_payment_slip U now_year text_opt = Inr d"
  by (rule parse_payment_slip_total)

theorem parse_payment_slip_never_raises_witness:
  "(\<exists>d. parse_payment_slip plain_ucd 2025 (Some (ascii ''From .'')) = Inr d)
   \<and> (\<exists>d. parse_payment_slip plain_ucd 2025 None = Inr d)"
  using parse_payment_slip_never_raises[of plain_ucd 2025 "Some (ascii ''From .'')"]
        parse_payment_slip_never_raises[of plain_ucd 2025 None]
  by simp

end
